theory Spec2Isabelle
  imports Main
begin

section \<open>Python strings\<close>

text \<open>
  The importer reads its export files with the codec iso-8859-1, so every character of a
  decoded line is a code point below 256: a \<^typ>\<open>char\<close>. The functions of this section
  are the methods of Python's \<open>str\<close> that \<open>core/import_step.py\<close> calls, on such
  strings.
\<close>

definition nl :: char where
  "nl = CHR 0x0A"

definition dq :: char where
  "dq = CHR 0x22"

definition ord :: "char \<Rightarrow> nat" where
  "ord c = of_char c"

text \<open>\<open>s.startswith(p)\<close>\<close>

definition startswith :: "string \<Rightarrow> string \<Rightarrow> bool" where
  "startswith s p = (take (length p) s = p)"

text \<open>
  \<open>str.isspace\<close> on one character below 256: the ASCII white space 9..13 and 28..32,
  NEL (0x85) and the no-break space (0xA0).
\<close>

definition isspace :: "char \<Rightarrow> bool" where
  "isspace c = (let n = ord c in
     (9 \<le> n \<and> n \<le> 13) \<or> (28 \<le> n \<and> n \<le> 32) \<or> n = 133 \<or> n = 160)"

text \<open>\<open>s.strip()\<close>\<close>

definition strip :: "string \<Rightarrow> string" where
  "strip s = rev (dropWhile isspace (rev (dropWhile isspace s)))"

text \<open>
  \<open>s.lower()\<close>: below 256 the upper-case letters are A..Z and 0xC0..0xDE without the
  multiplication sign 0xD7, and each one's lower-case letter is 32 further on.
\<close>

definition lower_char :: "char \<Rightarrow> char" where
  "lower_char c = (let n = ord c in
     if (65 \<le> n \<and> n \<le> 90) \<or> (192 \<le> n \<and> n \<le> 222 \<and> n \<noteq> 215) then char_of (n + 32) else c)"

definition lower :: "string \<Rightarrow> string" where
  "lower s = map lower_char s"

text \<open>\<open>s.split(sep)\<close> for a separator of one character: never an empty list.\<close>

fun py_split :: "char \<Rightarrow> string \<Rightarrow> string list" where
  "py_split sep [] = [[]]"
| "py_split sep (c # cs) =
     (if c = sep then [] # py_split sep cs
      else (case py_split sep cs of
              [] \<Rightarrow> [[c]]
            | w # ws \<Rightarrow> (c # w) # ws))"

text \<open>\<open>sep.join(xs)\<close>\<close>

fun py_join :: "string \<Rightarrow> string list \<Rightarrow> string" where
  "py_join sep [] = []"
| "py_join sep [x] = x"
| "py_join sep (x # y # ys) = x @ sep @ py_join sep (y # ys)"

text \<open>
  \<open>s.replace(old, new)\<close>: the occurrences of \<open>old\<close> are found from the left and do not
  overlap; an empty \<open>old\<close> matches before every character and at the end.
\<close>

function py_replace :: "string \<Rightarrow> string \<Rightarrow> string \<Rightarrow> string" where
  "py_replace [] new s = new @ concat (map (\<lambda>c. c # new) s)"
| "py_replace (x # xs) new [] = []"
| "py_replace (x # xs) new (c # cs) =
     (if startswith (c # cs) (x # xs)
      then new @ py_replace (x # xs) new (drop (length xs) cs)
      else c # py_replace (x # xs) new cs)"
  by pat_completeness auto
termination
  by (relation "measure (\<lambda>(old, new, s). length s)") auto

text \<open>The character class \<open>[0-9]\<close> of the patterns.\<close>

definition is_digit :: "char \<Rightarrow> bool" where
  "is_digit c = (48 \<le> ord c \<and> ord c \<le> 57)"

section \<open>Errors\<close>

text \<open>
  The exception a call of \<open>urllib.request.urlretrieve\<close> ends with, by class:
  \<open>HTTPError\<close> with its status code, or any other class.
\<close>

datatype exn =
    HTTPError nat
  | URLError
  | ContentTooShortError
  | KeyboardInterrupt
  | SystemExit
  | OtherError string

text \<open>
  The exceptions the functions of \<open>core/import_step.py\<close> can end with. The module
  declares no exception class of its own: it raises \<open>Exception\<close> with a message and
  \<open>NotImplementedError\<close>, and the interpreter raises the others (\<open>UnboundLocalError\<close>
  for a local variable read before any assignment, \<open>ValueError\<close> from \<open>int('')\<close>,
  \<open>FileNotFoundError\<close> from \<open>open\<close>, \<open>KeyError\<close> from a dictionary lookup,
  \<open>CalledProcessError\<close> from \<open>subprocess.run(..., check=True)\<close>). \<open>Uncaught e\<close> is
  an exception of a download attempt that no \<open>except\<close> clause catches, and
  \<open>CollaboratorError\<close> one the database collaborator raises.
\<close>

datatype py_error =
    UnboundLocalError string
  | ValueError
  | FileNotFoundError string
  | KeyError string
  | PyException string
  | NotImplementedError string
  | CalledProcessError string
  | CollaboratorError string
  | Uncaught exn

section \<open>The type mapping of \<open>create_sql\<close>\<close>

text \<open>
  \<open>int(precision)\<close> on a string of ASCII digits: \<open>ValueError\<close> on the empty string,
  and on a string of more digits than the interpreter converts (CPython's
  \<open>sys.get_int_max_str_digits()\<close>, 4300 unless the process changes it; leading zeros
  count).
\<close>

definition int_max_str_digits :: nat where
  "int_max_str_digits = 4300"

definition digits_value :: "string \<Rightarrow> nat" where
  "digits_value ds = foldl (\<lambda>n c. 10 * n + (ord c - 48)) 0 ds"

definition py_int :: "string \<Rightarrow> py_error + nat" where
  "py_int ds =
     (if ds = [] \<or> length ds > int_max_str_digits then Inl ValueError
      else Inr (digits_value ds))"

text \<open>
  \<open>re.search(r"^(string)[(]([0-9]*)[)]", frm_)\<close>: the pattern is anchored at the start
  only. After \<open>string(\<close> the digits are matched greedily, and a shorter run of digits
  would be followed by a digit, so the pattern matches exactly when the longest run of
  digits is followed by \<open>)\<close>. The result is group 2.
\<close>

definition match_string_n :: "string \<Rightarrow> string option" where
  "match_string_n t =
     (if startswith t ''string(''
      then (let r = drop 7 t in
            case dropWhile is_digit r of
              [] \<Rightarrow> None
            | c # _ \<Rightarrow> if c = CHR '')'' then Some (takeWhile is_digit r) else None)
      else None)"

text \<open>\<open>re.search(r"^(decimal)[(]([0-9]*)[,]([0-9]*)[)]", frm_)\<close>: groups 2 and 3.\<close>

definition match_decimal_ps :: "string \<Rightarrow> (string \<times> string) option" where
  "match_decimal_ps t =
     (if startswith t ''decimal(''
      then (let r = drop 8 t in
            case dropWhile is_digit r of
              [] \<Rightarrow> None
            | c # r' \<Rightarrow>
                if c = CHR '',''
                then (case dropWhile is_digit r' of
                        [] \<Rightarrow> None
                      | d # _ \<Rightarrow>
                          if d = CHR '')''
                          then Some (takeWhile is_digit r, takeWhile is_digit r')
                          else None)
                else None)
      else None)"

text \<open>\<open>re.search(r"^(decimal)[(]([0-9]*)[)]", frm_)\<close>: group 2.\<close>

definition match_decimal_p :: "string \<Rightarrow> string option" where
  "match_decimal_p t =
     (if startswith t ''decimal(''
      then (let r = drop 8 t in
            case dropWhile is_digit r of
              [] \<Rightarrow> None
            | c # _ \<Rightarrow> if c = CHR '')'' then Some (takeWhile is_digit r) else None)
      else None)"

text \<open>
  The body of the loop over \<open>frm\<close> (lines 49 to 67) for one token \<open>tok\<close>, the
  source's \<open>frm_\<close>: the value \<open>frm[i]\<close> has after it, or the \<open>ValueError\<close> of
  \<open>int('')\<close>. The first \<open>if\<close> stands alone; the chain of \<open>if\<close>/\<open>elif\<close> after it
  tests the token itself, not \<open>frm[i]\<close>.
\<close>

definition map_type :: "string \<Rightarrow> py_error + string" where
  "map_type tok =
     (let frm_i = (if tok = ''string'' then ''varchar'' else tok) in
      case match_string_n tok of
        Some len \<Rightarrow> Inr (''varchar('' @ len @ '')'')
      | None \<Rightarrow>
          (case match_decimal_ps tok of
             Some (precision, scale) \<Rightarrow> Inr (''numeric('' @ precision @ '','' @ scale @ '')'')
           | None \<Rightarrow>
               (case match_decimal_p tok of
                  Some precision \<Rightarrow>
                    (case py_int precision of
                       Inl e \<Rightarrow> Inl e
                     | Inr p \<Rightarrow>
                         Inr (if p \<le> 4 then ''smallint''
                              else if p \<le> 10 then ''integer''
                              else if p \<le> 18 then ''bigint''
                              else ''numeric('' @ precision @ '')''))
                | None \<Rightarrow> Inr frm_i)))"

text \<open>
  \<open>for i, frm_ in enumerate(frm): ...\<close> from index \<open>i\<close> on: the list is updated in
  place at the index just read, and the first exception ends the loop.
\<close>

function map_types_from :: "nat \<Rightarrow> string list \<Rightarrow> py_error + string list" where
  "map_types_from i frm =
     (if i < length frm
      then (case map_type (frm ! i) of
              Inl e \<Rightarrow> Inl e
            | Inr ty \<Rightarrow> map_types_from (Suc i) (frm[i := ty]))
      else Inr frm)"
  by pat_completeness auto
termination
  by (relation "measure (\<lambda>(i, frm). length frm - i)") auto

definition map_types :: "string list \<Rightarrow> py_error + string list" where
  "map_types frm = map_types_from 0 frm"

section \<open>Files, database and the calls made\<close>

text \<open>
  What the importer acts on: the files by path (their bytes), the tables and indexes of
  the data schema, and the calls to the outside made so far, in order.
\<close>

datatype event =
    OpenRead string
  | OpenWrite string
  | UrlRetrieve string string
  | InitSchema string
  | DropTable string
  | Execute string
  | Commit
  | ImportOsm string string
  | CloseDb

record world =
  files :: "string \<rightharpoonup> string"
  tables :: "string list"
  indexes :: "string list"
  trace :: "event list"

text \<open>A statement of the source: it ends with a value or an exception, in a new world.\<close>

type_synonym 'a prog = "world \<Rightarrow> (py_error + 'a) \<times> world"

definition ret :: "'a \<Rightarrow> 'a prog" where
  "ret x = (\<lambda>w. (Inr x, w))"

definition raise :: "py_error \<Rightarrow> 'a prog" where
  "raise e = (\<lambda>w. (Inl e, w))"

definition bnd :: "'a prog \<Rightarrow> ('a \<Rightarrow> 'b prog) \<Rightarrow> 'b prog" where
  "bnd m f = (\<lambda>w. case m w of (Inl e, w') \<Rightarrow> (Inl e, w') | (Inr x, w') \<Rightarrow> f x w')"

definition emit :: "event \<Rightarrow> unit prog" where
  "emit e = (\<lambda>w. (Inr (), w\<lparr>trace := trace w @ [e]\<rparr>))"

text \<open>\<open>os.path.isfile\<close>\<close>

definition isfile :: "world \<Rightarrow> string \<Rightarrow> bool" where
  "isfile w path = (files w path \<noteq> None)"

text \<open>
  Text mode with \<open>newline=None\<close>: on reading, \<open>\r\n\<close> and \<open>\r\<close> become \<open>\n\<close>, and
  iterating over the file gives its lines, each with its \<open>\n\<close> (the last line may have
  none).
\<close>

fun universal_newlines :: "string \<Rightarrow> string" where
  "universal_newlines [] = []"
| "universal_newlines [c] = [if c = CHR 0x0D then nl else c]"
| "universal_newlines (c # d # ds) =
     (if c = CHR 0x0D \<and> d = nl then nl # universal_newlines ds
      else (if c = CHR 0x0D then nl else c) # universal_newlines (d # ds))"

fun readlines :: "string \<Rightarrow> string list" where
  "readlines [] = []"
| "readlines (c # cs) =
     (if c = nl then [nl] # readlines cs
      else (case readlines cs of
              [] \<Rightarrow> [[c]]
            | l # ls \<Rightarrow> (c # l) # ls))"

text \<open>
  \<open>open(path, 'r', encoding='iso-8859-1')\<close> and the lines read from it: the codec maps
  each byte to the code point of the same number, so decoding changes nothing here.
\<close>

definition open_r :: "string \<Rightarrow> string list prog" where
  "open_r path = (\<lambda>w.
     case files w path of
       None \<Rightarrow> (Inl (FileNotFoundError path), w)
     | Some bytes \<Rightarrow>
         (Inr (readlines (universal_newlines bytes)), w\<lparr>trace := trace w @ [OpenRead path]\<rparr>))"

text \<open>The UTF-8 encoding of a string of code points below 256.\<close>

definition utf8_char :: "char \<Rightarrow> string" where
  "utf8_char c = (let n = ord c in
     if n < 128 then [c] else [char_of (192 + n div 64), char_of (128 + n mod 64)])"

definition utf8_encode :: "string \<Rightarrow> string" where
  "utf8_encode s = concat (map utf8_char s)"

text \<open>
  \<open>open(path, 'w', encoding='utf-8')\<close> creates the file or empties it. What is written
  to the handle stays in its buffer and reaches the file, from the handle's position 0,
  when the handle is flushed: at \<open>close()\<close>, or when an abandoned handle is reclaimed
  (CPython: as soon as its variable is bound to another object). The handles here write
  less than one buffer before that.
\<close>

definition open_w :: "string \<Rightarrow> world \<Rightarrow> world" where
  "open_w path w = w\<lparr>files := (files w)(path \<mapsto> []), trace := trace w @ [OpenWrite path]\<rparr>"

definition flush_at_0 :: "string \<Rightarrow> string \<Rightarrow> world \<Rightarrow> world" where
  "flush_at_0 path text w =
     (let bytes = utf8_encode text;
          old = (case files w path of None \<Rightarrow> [] | Some b \<Rightarrow> b)
      in w\<lparr>files := (files w)(path \<mapsto> bytes @ drop (length bytes) old)\<rparr>)"

section \<open>Paths\<close>

text \<open>\<open>os.path.splitext\<close> and \<open>os.path.join\<close> of \<open>posixpath\<close>.\<close>

definition rfind :: "string \<Rightarrow> char \<Rightarrow> int" where
  "rfind s c = (case filter (\<lambda>i. s ! i = c) (rev [0..<length s]) of
                  [] \<Rightarrow> - 1
                | i # _ \<Rightarrow> int i)"

definition splitext :: "string \<Rightarrow> string \<times> string" where
  "splitext p =
     (let sepIndex = rfind p (CHR ''/'');
          dotIndex = rfind p (CHR ''.'')
      in if dotIndex > sepIndex \<and>
            list_ex (\<lambda>i. p ! i \<noteq> CHR ''.'') [nat (sepIndex + 1)..<nat dotIndex]
         then (take (nat dotIndex) p, drop (nat dotIndex) p)
         else (p, []))"

definition join2 :: "string \<Rightarrow> string \<Rightarrow> string" where
  "join2 a b =
     (if startswith b ''/'' then b
      else if a = [] \<or> last a = CHR ''/'' then a @ b
      else a @ ''/'' @ b)"

definition path_join :: "string \<Rightarrow> string list \<Rightarrow> string" where
  "path_join a ps = foldl join2 a ps"

section \<open>\<open>create_csv\<close>\<close>

text \<open>
  The loop of \<open>create_csv\<close> over the lines still to read. \<open>file_csv\<close> is the local
  variable of that name: \<open>None\<close> while nothing is assigned to it, and otherwise what
  was written to the handle it holds. Reading it unassigned raises
  \<open>UnboundLocalError\<close>. A further \<open>tbl;\<close> line opens the same path again and abandons
  the handle before.
\<close>

fun csv_lines :: "string \<Rightarrow> string list \<Rightarrow> string option \<Rightarrow> world \<Rightarrow> (py_error + string option) \<times> world" where
  "csv_lines out [] file_csv w = (Inr file_csv, w)"
| "csv_lines out (line # rest) file_csv w =
     (if startswith line ''tbl;''
      then csv_lines out rest (Some [])
             (case file_csv of
                None \<Rightarrow> open_w out w
              | Some written \<Rightarrow> flush_at_0 out written (open_w out w))
      else if startswith line ''atr;''
      then (case file_csv of
              None \<Rightarrow> (Inl (UnboundLocalError ''file_csv''), w)
            | Some written \<Rightarrow> csv_lines out rest (Some (written @ drop 4 line)) w)
      else if startswith line ''rec;''
      then (case file_csv of
              None \<Rightarrow> (Inl (UnboundLocalError ''file_csv''), w)
            | Some written \<Rightarrow>
                csv_lines out rest
                  (Some (written @ py_replace [dq, CHR '' '', dq] [] (py_replace [dq, dq] [] (drop 4 line)))) w)
      else csv_lines out rest file_csv w)"

definition create_csv :: "string \<Rightarrow> unit prog" where
  "create_csv file_txt =
     bnd (open_r file_txt) (\<lambda>lines w.
       let out = fst (splitext file_txt) @ ''.csv'' in
       case csv_lines out lines None w of
         (Inl e, w') \<Rightarrow> (Inl e, w')
       | (Inr None, w') \<Rightarrow> (Inl (UnboundLocalError ''file_csv''), w')
       | (Inr (Some written), w') \<Rightarrow> (Inr (), flush_at_0 out written w'))"

section \<open>\<open>create_sql\<close>\<close>

text \<open>
  The local variables \<open>tbl\<close>, \<open>atr\<close> and \<open>frm\<close> of \<open>create_sql\<close>, \<open>None\<close> while
  unassigned. \<open>file_sql\<close> is assigned exactly when \<open>tbl\<close> is; nothing is written to its
  handle before the end.
\<close>

record locals =
  l_tbl :: "string option"
  l_atr :: "string list option"
  l_frm :: "string list option"

definition no_locals :: locals where
  "no_locals = \<lparr>l_tbl = None, l_atr = None, l_frm = None\<rparr>"

text \<open>The first loop of \<open>create_sql\<close>: it stops at the first \<open>rec;\<close> line.\<close>

fun sql_lines :: "string \<Rightarrow> string list \<Rightarrow> locals \<Rightarrow> world \<Rightarrow> locals \<times> world" where
  "sql_lines out [] l w = (l, w)"
| "sql_lines out (line # rest) l w =
     (if startswith line ''tbl;''
      then sql_lines out rest (l\<lparr>l_tbl := Some (lower (strip (drop 4 line)))\<rparr>) (open_w out w)
      else if startswith line ''atr;''
      then sql_lines out rest (l\<lparr>l_atr := Some (py_split (CHR '';'') (lower (strip (drop 4 line))))\<rparr>) w
      else if startswith line ''frm;''
      then sql_lines out rest (l\<lparr>l_frm := Some (py_split (CHR '';'') (lower (strip (drop 4 line))))\<rparr>) w
      else if startswith line ''rec;''
      then (l, w)
      else sql_lines out rest l w)"

text \<open>
  \<open>for i, atr_ in enumerate(atr): if atr_ == 'offset': atr[i] = 'offset_'\<close>, from index
  \<open>i\<close> on.
\<close>

function rename_offset_from :: "nat \<Rightarrow> string list \<Rightarrow> string list" where
  "rename_offset_from i atr =
     (if i < length atr
      then rename_offset_from (Suc i) (if atr ! i = ''offset'' then atr[i := ''offset_''] else atr)
      else atr)"
  by pat_completeness auto
termination
  by (relation "measure (\<lambda>(i, atr). length atr - i)") auto

definition rename_offset :: "string list \<Rightarrow> string list" where
  "rename_offset atr = rename_offset_from 0 atr"

text \<open>\<open>[f"{atr_} {frm_}" for atr_, frm_ in zip(atr, frm)]\<close>\<close>

definition columns_of :: "string list \<Rightarrow> string list \<Rightarrow> string list" where
  "columns_of atr frm = map (\<lambda>(a, f). a @ '' '' @ f) (zip atr frm)"

text \<open>
  Lines 44 to 70: the two loops, the columns and the statement, in the order in which
  the source reads its variables.
\<close>

definition build_sql :: "locals \<Rightarrow> py_error + string" where
  "build_sql l =
     (case l_atr l of
        None \<Rightarrow> Inl (UnboundLocalError ''atr'')
      | Some atr \<Rightarrow>
          (case l_frm l of
             None \<Rightarrow> Inl (UnboundLocalError ''frm'')
           | Some frm \<Rightarrow>
               (case map_types frm of
                  Inl e \<Rightarrow> Inl e
                | Inr frm' \<Rightarrow>
                    (case l_tbl l of
                       None \<Rightarrow> Inl (UnboundLocalError ''tbl'')
                     | Some tbl \<Rightarrow>
                         Inr (''CREATE TABLE gip_'' @ tbl @ '' ('' @
                              py_join '', '' (columns_of (rename_offset atr) frm') @ '');'')))))"

definition create_sql :: "string \<Rightarrow> unit prog" where
  "create_sql file_txt =
     bnd (open_r file_txt) (\<lambda>lines w.
       let out = fst (splitext file_txt) @ ''.sql'' in
       case sql_lines out lines no_locals w of
         (l, w') \<Rightarrow>
           (case build_sql l of
              Inl e \<Rightarrow> (Inl e, w')
            | Inr sql \<Rightarrow> (Inr (), flush_at_0 out sql w')))"

section \<open>\<open>GipImporter.run_step\<close>: the derived files of one task\<close>

text \<open>An entry of \<open>files_A\<close>.\<close>

record import_task =
  task_filename :: string
  task_table :: string
  task_columns :: "string list"

definition files_A :: "import_task list" where
  "files_A =
     [\<lparr>task_filename = ''BikeHike.txt'', task_table = ''gip_bikehike'', task_columns = [''use_id'']\<rparr>,
      \<lparr>task_filename = ''Link.txt'', task_table = ''gip_link'', task_columns = [''link_id'']\<rparr>,
      \<lparr>task_filename = ''LinkCoordinate.txt'', task_table = ''gip_linkcoordinate'',
         task_columns = [''link_id'', ''count'']\<rparr>,
      \<lparr>task_filename = ''LinkUse.txt'', task_table = ''gip_linkuse'', task_columns = [''use_id'']\<rparr>,
      \<lparr>task_filename = ''Link2ReferenceObject.txt'', task_table = ''gip_link2referenceobject'',
         task_columns = [''idseq'']\<rparr>,
      \<lparr>task_filename = ''Node.txt'', task_table = ''gip_node'', task_columns = [''node_id'']\<rparr>,
      \<lparr>task_filename = ''ReferenceObject.txt'', task_table = ''gip_referenceobject'',
         task_columns = [''refobj_id'']\<rparr>]"

text \<open>
  Lines 156 and 157 of the loop over \<open>files_A\<close>, for the data directory, the archive's
  name \<open>settings['filename_A']\<close> and one task.
\<close>

definition ensure_data_file :: "string \<Rightarrow> string \<Rightarrow> import_task \<Rightarrow> unit prog" where
  "ensure_data_file directory filename_A file = (\<lambda>w.
     if \<not> isfile w (path_join directory
                      [fst (splitext filename_A), fst (splitext (task_filename file)) @ ''.csv''])
     then create_csv (path_join directory [fst (splitext filename_A), task_filename file]) w
     else (Inr (), w))"

text \<open>Lines 158 and 159.\<close>

definition ensure_schema_file :: "string \<Rightarrow> string \<Rightarrow> import_task \<Rightarrow> unit prog" where
  "ensure_schema_file directory filename_A file = (\<lambda>w.
     if \<not> isfile w (path_join directory
                      [fst (splitext filename_A), fst (splitext (task_filename file)) @ ''.sql''])
     then create_sql (path_join directory [fst (splitext filename_A), task_filename file]) w
     else (Inr (), w))"

definition ensure_files :: "string \<Rightarrow> string \<Rightarrow> import_task \<Rightarrow> unit prog" where
  "ensure_files directory filename_A file =
     bnd (ensure_data_file directory filename_A file)
       (\<lambda>_. ensure_schema_file directory filename_A file)"

section \<open>\<open>OsmImporter\<close>\<close>

record global_settings =
  data_directory :: string
  osm_download_fname :: string
  overpass_api_endpoints :: "string list"
  target_srid :: nat

text \<open>
  \<open>urllib.parse.quote_plus\<close>: the string is encoded in UTF-8; letters, digits and
  \<open>_.-~\<close> stay, a space becomes \<open>+\<close>, and every other byte becomes \<open>%\<close> and its two
  upper-case hexadecimal digits.
\<close>

definition hex_digit :: "nat \<Rightarrow> char" where
  "hex_digit n = ''0123456789ABCDEF'' ! (n mod 16)"

definition always_safe :: "char \<Rightarrow> bool" where
  "always_safe c = (let n = ord c in
     (48 \<le> n \<and> n \<le> 57) \<or> (65 \<le> n \<and> n \<le> 90) \<or> (97 \<le> n \<and> n \<le> 122) \<or>
     c = CHR ''_'' \<or> c = CHR ''.'' \<or> c = CHR ''-'' \<or> c = CHR ''~'')"

definition quote_byte :: "char \<Rightarrow> string" where
  "quote_byte c =
     (if always_safe c then [c]
      else if c = CHR '' '' then ''+''
      else [CHR ''%'', hex_digit (ord c div 16), hex_digit (ord c mod 16)])"

definition quote_plus :: "string \<Rightarrow> string" where
  "quote_plus s = concat (map quote_byte (utf8_encode s))"

definition q_template :: string where
  "q_template =
     [nl] @ ''            [timeout:900][maxsize:1073741824];'' @
     [nl] @ ''            nwr(__bbox__);'' @
     [nl] @ ''            out;''"

text \<open>
  One call of \<open>urlretrieve\<close> ends with the file retrieved or with an exception. The
  network is a parameter of the model: \<open>net k url\<close> is how the call with this \<open>url\<close>
  ends when \<open>k\<close> calls were made before it. \<open>urlretrieve\<close> opens the address first and
  the target file, for writing, after that: a call that raises before it has opened the
  target leaves the file as it was (\<open>Raised e None\<close>), and one that raises later, as
  with \<open>ContentTooShortError\<close>, leaves in it what it had written by then, which may be
  nothing (\<open>Raised e (Some written)\<close>).
\<close>

datatype fetched = Retrieved string | Raised exn "string option"

text \<open>The world after a call of \<open>urlretrieve\<close> that raised.\<close>

definition failed_call :: "string \<Rightarrow> string \<Rightarrow> string option \<Rightarrow> world \<Rightarrow> world" where
  "failed_call url target left w =
     (case left of
        None \<Rightarrow> w\<lparr>trace := trace w @ [UrlRetrieve url target]\<rparr>
      | Some written \<Rightarrow>
          w\<lparr>files := (files w)(target \<mapsto> written), trace := trace w @ [UrlRetrieve url target]\<rparr>)"

text \<open>
  \<open>except HTTPError\<close> and \<open>except BaseException\<close>: whether the clause catches an
  exception of this class. Every exception class of Python derives from
  \<open>BaseException\<close>.
\<close>

fun is_HTTPError :: "exn \<Rightarrow> bool" where
  "is_HTTPError (HTTPError code) = True"
| "is_HTTPError e = False"

definition is_BaseException :: "exn \<Rightarrow> bool" where
  "is_BaseException e = True"

text \<open>
  The \<open>while\<close> loop of \<open>_load_osm_from_bbox\<close>, entered with \<open>success = False\<close> at
  \<open>curEndpointIndex\<close>; its value is \<open>success\<close> at the end of the loop.
\<close>

function load_loop :: "(nat \<Rightarrow> string \<Rightarrow> fetched) \<Rightarrow> global_settings \<Rightarrow> string \<Rightarrow> nat \<Rightarrow> bool prog" where
  "load_loop net gs q_str curEndpointIndex w =
     (if curEndpointIndex < length (overpass_api_endpoints gs)
      then (let url = overpass_api_endpoints gs ! curEndpointIndex @ ''?data='' @ quote_plus q_str;
                target = path_join (data_directory gs) [osm_download_fname gs]
            in case net curEndpointIndex url of
                 Raised e left \<Rightarrow>
                   (let w1 = failed_call url target left w
                    in if is_HTTPError e then load_loop net gs q_str (Suc curEndpointIndex) w1
                       else if is_BaseException e then load_loop net gs q_str (Suc curEndpointIndex) w1
                       else (Inl (Uncaught e), w1))
               | Retrieved content \<Rightarrow>
                   (Inr True,
                    w\<lparr>files := (files w)(target \<mapsto> content),
                      trace := trace w @ [UrlRetrieve url target]\<rparr>))
      else (Inr False, w))"
  by pat_completeness auto
termination
  by (relation "measure (\<lambda>(net, gs, q_str, i, w). length (overpass_api_endpoints gs) - i)") auto

definition download_failed :: py_error where
  "download_failed = PyException ''OSM data download was not successful. Terminating.''"

definition load_osm_from_bbox :: "(nat \<Rightarrow> string \<Rightarrow> fetched) \<Rightarrow> global_settings \<Rightarrow> string \<Rightarrow> unit prog" where
  "load_osm_from_bbox net gs bbox =
     bnd (load_loop net gs (py_replace ''__bbox__'' bbox q_template) 0)
       (\<lambda>success. if \<not> success then raise download_failed else ret ())"




text \<open>
  Modelled from the spec: the database collaborator \<open>PostgresConnection\<close> is not among
  the source files. \<open>dropTable\<close> removes the table if it is there; \<open>commit\<close> is a
  call; \<open>execute\<close> of the statement of a dataset creates the table of that name and
  the spatial index \<open><name>_geom_idx\<close> on it, and fails, as the database does, when a
  table of that name exists.
\<close>

definition drop_table :: "string \<Rightarrow> unit prog" where
  "drop_table name = (\<lambda>w.
     (Inr (), w\<lparr>tables := removeAll name (tables w), trace := trace w @ [DropTable name]\<rparr>))"

definition commit :: "unit prog" where
  "commit = emit Commit"

definition execute_create :: "string \<Rightarrow> nat \<Rightarrow> unit prog" where
  "execute_create name srid = (\<lambda>w.
     if name \<in> set (tables w)
     then (Inl (CollaboratorError ''DuplicateTable''), w\<lparr>trace := trace w @ [Execute name]\<rparr>)
     else (Inr (), w\<lparr>tables := tables w @ [name],
                     indexes := indexes w @ [name @ ''_geom_idx''],
                     trace := trace w @ [Execute name]\<rparr>))"

text \<open>
  What \<open>run_step\<close> is given besides its settings: the network, whether \<open>osm2pgsql\<close>
  exits with status 0 on a file, and the collaborator's
  \<open>handle_conflicting_output_tables\<close>, which answers \<open>True\<close> (safe to create) or
  \<open>False\<close>, or raises, and may change the database.
\<close>

record env =
  net :: "nat \<Rightarrow> string \<Rightarrow> fetched"
  osm2pgsql :: "string \<Rightarrow> bool"
  handle_conflicting_output_tables :: "string list \<Rightarrow> world \<Rightarrow> (string + bool) \<times> world"

definition handle_conflicting :: "env \<Rightarrow> string list \<Rightarrow> bool prog" where
  "handle_conflicting en names = (\<lambda>w.
     case handle_conflicting_output_tables en names w of
       (Inl msg, w') \<Rightarrow> (Inl (CollaboratorError msg), w')
     | (Inr ok, w') \<Rightarrow> (Inr ok, w'))"



text \<open>
  One block "create dataset" of \<open>run_step\<close> (lines 262 to 356 hold five, which differ
  in the name and in the query of the statement).
\<close>

definition build_dataset :: "env \<Rightarrow> global_settings \<Rightarrow> string \<Rightarrow> unit prog" where
  "build_dataset en gs name =
     bnd (handle_conflicting en [name]) (\<lambda>ok.
       if ok then bnd (execute_create name (target_srid gs)) (\<lambda>_. commit)
       else ret ())"

definition build_datasets :: "env \<Rightarrow> global_settings \<Rightarrow> unit prog" where
  "build_datasets en gs =
     bnd (build_dataset en gs ''building'') (\<lambda>_.
     bnd (build_dataset en gs ''crossing'') (\<lambda>_.
     bnd (build_dataset en gs ''facility'') (\<lambda>_.
     bnd (build_dataset en gs ''greenness'') (\<lambda>_.
          build_dataset en gs ''water''))))"

definition no_selector :: py_error where
  "no_selector =
     PyException ''neither 'aoi_name' nor 'bbox' parameter specified for OSM download. Terminating.''"





section \<open>Predicates of the statements\<close>



definition decimal_p_head :: "string \<Rightarrow> string \<Rightarrow> bool" where
  "decimal_p_head t p \<longleftrightarrow> list_all is_digit p \<and> (\<exists>rest. t = ''decimal('' @ p @ '')'' @ rest)"


text \<open>
  The invariant of the loop over \<open>frm\<close>: the tokens before index \<open>i\<close> are settled, the
  others map to what the result holds.
\<close>

definition elementwise :: "nat \<Rightarrow> string list \<Rightarrow> string list \<Rightarrow> bool" where
  "elementwise i frm tys \<longleftrightarrow> length tys = length frm \<and>
     (\<forall>j<length frm. if j < i then tys ! j = frm ! j else map_type (frm ! j) = Inr (tys ! j))"

section \<open>Example inputs\<close>

text \<open>A field in double quotes, as the export files write values.\<close>

definition quoted :: "string \<Rightarrow> string" where
  "quoted s = [dq] @ s @ [dq]"

text \<open>The export file of the specification's end-to-end example, and a world that holds it.\<close>

definition example_export :: string where
  "example_export =
     ''tbl;parcels'' @ [nl] @
     ''atr;parcel_id;area'' @ [nl] @
     ''frm;decimal(9);decimal(8,2)'' @ [nl] @
     ''rec;'' @ quoted ''12345'' @ '';'' @ quoted ''100.50'' @ [nl]"

definition example_world :: world where
  "example_world =
     \<lparr>files = [''data/parcels.txt'' \<mapsto> example_export], tables = [], indexes = [], trace = []\<rparr>"

text \<open>A file whose first \<open>rec;\<close> line stands before its \<open>tbl;\<close> line.\<close>

definition rec_first_world :: world where
  "rec_first_world =
     \<lparr>files = [''data/Node.txt'' \<mapsto> ''frm;string'' @ [nl] @ ''rec;1'' @ [nl] @ ''tbl;node'' @ [nl] @ ''rec;2'' @ [nl]],
      tables = [], indexes = [], trace = []\<rparr>"

text \<open>A file that is one \<open>rec;\<close> line.\<close>

definition rec_only_world :: world where
  "rec_only_world =
     \<lparr>files = [''data/Link.txt'' \<mapsto> ''rec;1;2'' @ [nl]], tables = [], indexes = [], trace = []\<rparr>"

text \<open>
  The error classes of the specification's taxonomy, and the class of an exception the
  module ends with. The \<open>raise\<close> statements of the module are in \<open>OsmImporter\<close> and
  \<open>create_importer\<close>, and \<open>check=True\<close> passes on the failure of an external tool;
  \<open>create_csv\<close> and \<open>create_sql\<close> check nothing and raise nothing themselves. An
  exception the interpreter raises (\<open>UnboundLocalError\<close>, \<open>ValueError\<close>,
  \<open>FileNotFoundError\<close>, \<open>KeyError\<close>) is of none of the classes.
\<close>

datatype spec_error =
    MalformedExportError
  | DownloadExhaustedError
  | UnsupportedSelectorError
  | ConfigurationError
  | ExternalToolError

fun spec_class :: "py_error \<Rightarrow> spec_error option" where
  "spec_class (PyException msg) =
     (if PyException msg = download_failed then Some DownloadExhaustedError
      else if PyException msg = no_selector then Some ConfigurationError
      else None)"
| "spec_class (NotImplementedError msg) = Some UnsupportedSelectorError"
| "spec_class (CalledProcessError tool) = Some ExternalToolError"
| "spec_class e = None"

text \<open>The paths whose presence lines 156 and 158 test.\<close>

definition csv_path :: "string \<Rightarrow> string \<Rightarrow> import_task \<Rightarrow> string" where
  "csv_path directory filename_A file =
     path_join directory [fst (splitext filename_A), fst (splitext (task_filename file)) @ ''.csv'']"

definition sql_path :: "string \<Rightarrow> string \<Rightarrow> import_task \<Rightarrow> string" where
  "sql_path directory filename_A file =
     path_join directory [fst (splitext filename_A), fst (splitext (task_filename file)) @ ''.sql'']"

text \<open>
  A world in which both derived files of the task \<open>Node.txt\<close> exist, with contents that
  do not come from the source file, and the source file is one \<open>create_csv\<close> fails on.
\<close>

definition stale_world :: world where
  "stale_world =
     \<lparr>files = [''data/gip/Node.txt'' \<mapsto> ''rec;1'' @ [nl],
               ''data/gip/Node.csv'' \<mapsto> ''stale'',
               ''data/gip/Node.sql'' \<mapsto> ''stale''],
      tables = [], indexes = [], trace = []\<rparr>"

definition node_task :: import_task where
  "node_task = \<lparr>task_filename = ''Node.txt'', task_table = ''gip_node'', task_columns = [''node_id'']\<rparr>"

text \<open>
  The query of \<open>_load_osm_from_bbox\<close>, the address it asks the endpoint of index \<open>i\<close>
  with, the file it downloads to, the calls of \<open>urlretrieve\<close> for the endpoints of index
  \<open>i\<close> up to \<open>j\<close>, and that the call for the endpoint of index \<open>i\<close> raises.
\<close>

definition q_str_of :: "string \<Rightarrow> string" where
  "q_str_of bbox = py_replace ''__bbox__'' bbox q_template"

definition request_url :: "global_settings \<Rightarrow> string \<Rightarrow> nat \<Rightarrow> string" where
  "request_url gs q_str i = overpass_api_endpoints gs ! i @ ''?data='' @ quote_plus q_str"

definition download_target :: "global_settings \<Rightarrow> string" where
  "download_target gs = path_join (data_directory gs) [osm_download_fname gs]"

definition attempts :: "global_settings \<Rightarrow> string \<Rightarrow> nat \<Rightarrow> nat \<Rightarrow> event list" where
  "attempts gs q_str i j = map (\<lambda>k. UrlRetrieve (request_url gs q_str k) (download_target gs)) [i..<j]"

definition fails_at :: "(nat \<Rightarrow> string \<Rightarrow> fetched) \<Rightarrow> global_settings \<Rightarrow> string \<Rightarrow> nat \<Rightarrow> bool" where
  "fails_at nt gs q_str i \<longleftrightarrow> (\<exists>e left. nt i (request_url gs q_str i) = Raised e left)"

text \<open>
  The second world is the first after these calls, with no table or index changed and no
  file changed but possibly the one of this path.
\<close>

definition same_but :: "string \<Rightarrow> world \<Rightarrow> world \<Rightarrow> event list \<Rightarrow> bool" where
  "same_but path w w' es \<longleftrightarrow>
     trace w' = trace w @ es \<and> tables w' = tables w \<and> indexes w' = indexes w \<and>
     (\<forall>p. p \<noteq> path \<longrightarrow> files w' p = files w p)"

text \<open>
  Four endpoints; a network on which the third call is the first to succeed, after a
  call that left part of a file; and one on which every call raises an exception that
  is not an \<open>Exception\<close>, every other one after it has emptied the target.
\<close>

definition four_endpoints :: global_settings where
  "four_endpoints =
     \<lparr>data_directory = ''data'', osm_download_fname = ''osm_download.xml'',
      overpass_api_endpoints = [''https://a.example/api'', ''https://b.example/api'',
                                ''https://c.example/api'', ''https://d.example/api''],
      target_srid = 32633\<rparr>"

definition third_answers :: "nat \<Rightarrow> string \<Rightarrow> fetched" where
  "third_answers k url =
     (if k = 0 then Raised URLError None
      else if k = 1 then Raised ContentTooShortError (Some ''<os'')
      else if k = 2 then Retrieved ''<osm/>''
      else Retrieved ''late'')"

definition none_answers :: "nat \<Rightarrow> string \<Rightarrow> fetched" where
  "none_answers k url =
     (if even k then Raised KeyboardInterrupt (Some []) else Raised SystemExit None)"

definition empty_world :: world where
  "empty_world = \<lparr>files = Map.empty, tables = [], indexes = [], trace = []\<rparr>"

text \<open>
  The variables \<open>tbl\<close>, \<open>atr\<close> and \<open>frm\<close> after the first loop of \<open>create_sql\<close> over
  these lines (the loop's files do not bear on them), the statement of line 70, and the
  renaming of one column name.
\<close>

definition header_of :: "string list \<Rightarrow> locals" where
  "header_of lines =
     fst (sql_lines [] lines no_locals \<lparr>files = Map.empty, tables = [], indexes = [], trace = []\<rparr>)"

definition sql_statement :: "string \<Rightarrow> string list \<Rightarrow> string" where
  "sql_statement tbl columns = ''CREATE TABLE gip_'' @ tbl @ '' ('' @ py_join '', '' columns @ '');''"

definition rename_rule :: "string \<Rightarrow> string" where
  "rename_rule a = (if a = ''offset'' then ''offset_'' else a)"

text \<open>
  An export file with three names and two types; its second name is \<open>Offset\<close>.
\<close>

definition uneven_world :: world where
  "uneven_world =
     \<lparr>files = [''data/t.txt'' \<mapsto> ''tbl;T'' @ [nl] @ ''atr;a;Offset;c'' @ [nl] @ ''frm;string;decimal(3)'' @ [nl] @ ''rec;1;2;3'' @ [nl]],
      tables = [], indexes = [], trace = []\<rparr>"

text \<open>
  An export file in which two inner fields of the \<open>atr\<close> record are \<open>offset\<close> with white
  space beside them.
\<close>

definition spaced_world :: world where
  "spaced_world =
     \<lparr>files = [''data/t.txt'' \<mapsto> ''tbl;t'' @ [nl] @ ''atr;a; offset;Offset ;c'' @ [nl] @ ''frm;x;y;z;u'' @ [nl]],
      tables = [], indexes = [], trace = []\<rparr>"

text \<open>The five datasets of \<open>run_step\<close>, in the order of their blocks.\<close>

definition dataset_names :: "string list" where
  "dataset_names = [''building'', ''crossing'', ''facility'', ''greenness'', ''water'']"

text \<open>
  Modelled from the spec: "a conflict-check collaborator that reports existing tables
  correctly", whose answer is \<open>True\<close> when it is safe to create the table: asked for one
  name, it answers \<open>False\<close> exactly when a table of that name exists, and changes
  nothing.
\<close>

definition reports_existing :: "env \<Rightarrow> bool" where
  "reports_existing en \<longleftrightarrow>
     (\<forall>n w. handle_conflicting_output_tables en [n] w = (Inr (n \<notin> set (tables w)), w))"

text \<open>The tables after a dataset is built under such a collaborator.\<close>

definition add_table :: "string list \<Rightarrow> string \<Rightarrow> string list" where
  "add_table ts n = (if n \<in> set ts then ts else ts @ [n])"

text \<open>An environment with such a collaborator.\<close>

definition honest_env :: env where
  "honest_env =
     \<lparr>net = third_answers, osm2pgsql = (\<lambda>path. True),
      handle_conflicting_output_tables = (\<lambda>names w. (Inr (\<not> list_all (\<lambda>n. n \<in> set (tables w)) names), w))\<rparr>"




section \<open>The type mapping\<close>

lemma not_digit_paren: "\<not> is_digit (CHR '')'')" "\<not> is_digit (CHR '','')"
  by (simp_all add: is_digit_def ord_def)

lemma takeWhile_digits: "list_all is_digit ds \<Longrightarrow> \<not> is_digit c \<Longrightarrow> takeWhile is_digit (ds @ c # r) = ds"
  by (induction ds) auto

lemma dropWhile_digits: "list_all is_digit ds \<Longrightarrow> \<not> is_digit c \<Longrightarrow> dropWhile is_digit (ds @ c # r) = c # r"
  by (induction ds) auto



lemma match_decimal_p_form:
  "list_all is_digit p \<Longrightarrow> match_decimal_p (''decimal('' @ p @ '')'' @ rest) = Some p"
  by (simp add: match_decimal_p_def startswith_def takeWhile_digits dropWhile_digits not_digit_paren)

lemma match_decimal_ps_none:
  "list_all is_digit p \<Longrightarrow> match_decimal_ps (''decimal('' @ p @ '')'' @ rest) = None"
  by (simp add: match_decimal_ps_def startswith_def takeWhile_digits dropWhile_digits not_digit_paren)

lemma match_string_n_decimal: "match_string_n (''decimal('' @ r) = None"
  by (simp add: match_string_n_def startswith_def)








declare map_types_from.simps [simp del]

lemma mtf_done: "\<not> i < length frm \<Longrightarrow> map_types_from i frm = Inr frm"
  by (subst map_types_from.simps) simp

lemma mtf_err: "i < length frm \<Longrightarrow> map_type (frm ! i) = Inl e \<Longrightarrow> map_types_from i frm = Inl e"
  by (subst map_types_from.simps) simp

lemma mtf_step: "i < length frm \<Longrightarrow> map_type (frm ! i) = Inr ty \<Longrightarrow>
  map_types_from i frm = map_types_from (Suc i) (frm[i := ty])"
  by (subst map_types_from.simps) simp


lemma elementwise_done: "\<not> i < length frm \<Longrightarrow> elementwise i frm tys \<longleftrightarrow> frm = tys"
  unfolding elementwise_def list_eq_iff_nth_eq by auto

lemma elementwise_err: "i < length frm \<Longrightarrow> map_type (frm ! i) = Inl e \<Longrightarrow> \<not> elementwise i frm tys"
  unfolding elementwise_def by (metis Inl_Inr_False less_irrefl)

lemma elementwise_step:
  assumes "i < length frm" "map_type (frm ! i) = Inr ty"
  shows "elementwise (Suc i) (frm[i := ty]) tys \<longleftrightarrow> elementwise i frm tys"
proof -
  have "(if j < Suc i then tys ! j = frm[i := ty] ! j else map_type (frm[i := ty] ! j) = Inr (tys ! j))
      = (if j < i then tys ! j = frm ! j else map_type (frm ! j) = Inr (tys ! j))" if "j < length frm" for j
    using that assms by (cases "j = i") (auto simp: less_Suc_eq)
  then show ?thesis unfolding elementwise_def by simp
qed

lemma map_types_from_iff:
  "map_types_from i frm = Inr tys \<longleftrightarrow> elementwise i frm tys"
proof (induction i frm rule: map_types_from.induct)
  case (1 i frm)
  show ?case
  proof (cases "i < length frm")
    case False
    then show ?thesis
      by (simp add: mtf_done elementwise_done)
  next
    case True
    show ?thesis
    proof (cases "map_type (frm ! i)")
      case (Inl e)
      with True show ?thesis 
        by (simp add: mtf_err elementwise_err)
    next
      case (Inr ty)
      show ?thesis using 1[OF True Inr] 
        by (simp add: mtf_step[OF True Inr] elementwise_step[OF True Inr])
    qed
  qed
qed

lemma map_types_iff: "map_types frm = Inr tys \<longleftrightarrow> map map_type frm = map Inr tys"
  unfolding map_types_def map_types_from_iff elementwise_def list_eq_iff_nth_eq by auto





text \<open>
  With no digit between the parentheses, or with more digits than \<open>int\<close> converts, the
  third pattern still matches and \<open>int(precision)\<close> raises: \<open>create_sql\<close> ends with
  \<open>ValueError\<close> on such a token.
\<close>

lemma map_type_decimal_p_raises:
  assumes "decimal_p_head t p" and "p = [] \<or> length p > int_max_str_digits"
  shows "map_type t = Inl ValueError"
proof -
  from assms obtain rest where d: "list_all is_digit p"
      and t: "t = ''decimal('' @ p @ '')'' @ rest"
    unfolding decimal_p_head_def by blast
  have "match_string_n t = None"
    unfolding t by (simp add: match_string_n_def startswith_def)
  moreover have "match_decimal_ps t = None"
    unfolding t using d by (rule match_decimal_ps_none)
  moreover have "match_decimal_p t = Some p"
    unfolding t using d by (rule match_decimal_p_form)
  ultimately show ?thesis
    using assms(2) by (auto simp: map_type_def py_int_def)
qed



lemma map_type_empty_precision: "map_type ''decimal()'' = Inl ValueError"
  by (simp add: map_type_def match_string_n_def match_decimal_ps_def match_decimal_p_def
      startswith_def is_digit_def ord_def py_int_def)








section \<open>The end-to-end example\<close>

text \<open>
  Claim C2, as the code has it. For the example export file, \<open>create_sql\<close> writes exactly
  \<open>CREATE TABLE gip_parcels (parcel_id integer, area numeric(8,2));\<close>, and
  \<open>create_csv\<close> writes the header row \<open>parcel_id;area\<close> and the data row with its double
  quotes kept: it removes the sequences \<open>""\<close> and \<open>" "\<close> only, and the row holds
  neither.
\<close>

theorem example_end_to_end:
  "fst (create_sql ''data/parcels.txt'' example_world) = Inr () \<and>
   files (snd (create_sql ''data/parcels.txt'' example_world)) ''data/parcels.sql'' =
     Some ''CREATE TABLE gip_parcels (parcel_id integer, area numeric(8,2));'' \<and>
   fst (create_csv ''data/parcels.txt'' example_world) = Inr () \<and>
   files (snd (create_csv ''data/parcels.txt'' example_world)) ''data/parcels.csv'' =
     Some (''parcel_id;area'' @ [nl] @ quoted ''12345'' @ '';'' @ quoted ''100.50'' @ [nl])"
  by code_simp

text \<open>
  Claim C2 as the specification states it fails: the data file is not the one with the
  row \<open>12345;100.50\<close>, and no line of it is that row.
\<close>

theorem example_data_row_counterexample:
  "files (snd (create_csv ''data/parcels.txt'' example_world)) ''data/parcels.csv'' \<noteq>
     Some (''parcel_id;area'' @ [nl] @ ''12345;100.50'' @ [nl]) \<and>
   files (snd (create_csv ''data/parcels.txt'' example_world)) ''data/parcels.csv'' \<noteq>
     Some (''12345;100.50'' @ [nl]) \<and>
   ''12345;100.50'' @ [nl] \<notin>
     set (readlines (case files (snd (create_csv ''data/parcels.txt'' example_world)) ''data/parcels.csv'' of
                       None \<Rightarrow> [] | Some c \<Rightarrow> c)) \<and>
   ''12345;100.50'' \<notin>
     set (readlines (case files (snd (create_csv ''data/parcels.txt'' example_world)) ''data/parcels.csv'' of
                       None \<Rightarrow> [] | Some c \<Rightarrow> c))"
  by code_simp


section \<open>A data row before the table name\<close>

lemma startswith_rec: "startswith line ''rec;'' \<Longrightarrow> \<not> startswith line ''tbl;'' \<and> \<not> startswith line ''atr;'' \<and> \<not> startswith line ''frm;''"
  by (auto simp: startswith_def)

lemma csv_lines_unbound:
  assumes "list_all (\<lambda>l. \<not> startswith l ''tbl;'') pre" and "startswith line ''rec;''"
  shows "csv_lines out (pre @ line # post) None w = (Inl (UnboundLocalError ''file_csv''), w)"
  using assms
proof (induction pre)
  case Nil
  then show ?case
    using startswith_rec[of line] by simp
next
  case (Cons a pre)
  then show ?case by simp
qed

lemma open_r_Some:
  "files w path = Some bytes \<Longrightarrow>
   open_r path w = (Inr (readlines (universal_newlines bytes)), w\<lparr>trace := trace w @ [OpenRead path]\<rparr>)"
  by (simp add: open_r_def)

text \<open>
  Claim C4, as the code has it. Let a \<open>rec;\<close> line of the file stand before every
  \<open>tbl;\<close> line. Then \<open>create_csv\<close> fails, though not with an error of its own: it
  checks nothing, the variable \<open>file_csv\<close> holds no open file, and reading it makes the
  interpreter raise \<open>UnboundLocalError\<close>. Nothing is opened for writing and no file is
  changed.
\<close>

theorem rec_before_tbl_fails:
  assumes "files w path = Some bytes"
    and "readlines (universal_newlines bytes) = pre @ line # post"
    and "list_all (\<lambda>l. \<not> startswith l ''tbl;'') pre"
    and "startswith line ''rec;''"
  shows "create_csv path w =
           (Inl (UnboundLocalError ''file_csv''), w\<lparr>trace := trace w @ [OpenRead path]\<rparr>)"
  using assms by (simp add: create_csv_def bnd_def open_r_Some csv_lines_unbound)

text \<open>The theorem at a file of four lines.\<close>

theorem rec_before_tbl_fails_witness:
  "create_csv ''data/Node.txt'' rec_first_world =
     (Inl (UnboundLocalError ''file_csv''),
      rec_first_world\<lparr>trace := trace rec_first_world @ [OpenRead ''data/Node.txt'']\<rparr>)"
proof (rule rec_before_tbl_fails)
  show "files rec_first_world ''data/Node.txt'' =
      Some (''frm;string'' @ [nl] @ ''rec;1'' @ [nl] @ ''tbl;node'' @ [nl] @ ''rec;2'' @ [nl])"
    by (simp add: rec_first_world_def)
  show "readlines (universal_newlines (''frm;string'' @ [nl] @ ''rec;1'' @ [nl] @ ''tbl;node'' @ [nl] @ ''rec;2'' @ [nl])) =
      [''frm;string'' @ [nl]] @ (''rec;1'' @ [nl]) # [''tbl;node'' @ [nl], ''rec;2'' @ [nl]]"
    by code_simp
  show "list_all (\<lambda>l. \<not> startswith l ''tbl;'') [''frm;string'' @ [nl]]"
    by (simp add: startswith_def)
  show "startswith (''rec;1'' @ [nl]) ''rec;''"
    by (simp add: startswith_def)
qed

text \<open>
  Claim C4 as the specification states it fails: on the file that is one \<open>rec;\<close> line
  \<open>create_csv\<close> ends with \<open>UnboundLocalError\<close>, which is of no class of the
  specification's taxonomy, and so not a \<open>MalformedExportError\<close>.
\<close>

theorem rec_before_tbl_counterexample:
  "fst (create_csv ''data/Link.txt'' rec_only_world) = Inl (UnboundLocalError ''file_csv'') \<and>
   spec_class (UnboundLocalError ''file_csv'') = None \<and>
   spec_class (UnboundLocalError ''file_csv'') \<noteq> Some MalformedExportError"
  by code_simp


section \<open>Derived files that exist\<close>

text \<open>
  Claim C6. For every task, when the \<open>.csv\<close> file exists the step of lines 156 and 157
  changes nothing and calls nothing: the world after it is the world before it, whatever
  the source file holds and whether it exists; the same for the \<open>.sql\<close> file and lines
  158 and 159, and for both together.
\<close>

theorem ensure_skips_existing:
  "(isfile w (csv_path directory filename_A file) \<longrightarrow>
      ensure_data_file directory filename_A file w = (Inr (), w)) \<and>
   (isfile w (sql_path directory filename_A file) \<longrightarrow>
      ensure_schema_file directory filename_A file w = (Inr (), w)) \<and>
   (isfile w (csv_path directory filename_A file) \<and> isfile w (sql_path directory filename_A file) \<longrightarrow>
      ensure_files directory filename_A file w = (Inr (), w))"
  by (simp add: ensure_data_file_def ensure_schema_file_def ensure_files_def bnd_def
      csv_path_def sql_path_def)

text \<open>The theorem at the world with the stale files.\<close>

theorem ensure_skips_existing_witness:
  "isfile stale_world ''data/gip/Node.csv'' \<and> isfile stale_world ''data/gip/Node.sql'' \<and>
   csv_path ''data'' ''gip.zip'' node_task = ''data/gip/Node.csv'' \<and>
   sql_path ''data'' ''gip.zip'' node_task = ''data/gip/Node.sql'' \<and>
   ensure_data_file ''data'' ''gip.zip'' node_task stale_world = (Inr (), stale_world) \<and>
   ensure_schema_file ''data'' ''gip.zip'' node_task stale_world = (Inr (), stale_world) \<and>
   ensure_files ''data'' ''gip.zip'' node_task stale_world = (Inr (), stale_world) \<and>
   fst (create_csv ''data/gip/Node.txt'' stale_world) = Inl (UnboundLocalError ''file_csv'')"
proof -
  have p1: "csv_path ''data'' ''gip.zip'' node_task = ''data/gip/Node.csv''"
    by code_simp
  have p2: "sql_path ''data'' ''gip.zip'' node_task = ''data/gip/Node.sql''"
    by code_simp
  have f1: "isfile stale_world ''data/gip/Node.csv''"
    by (simp add: isfile_def stale_world_def)
  have f2: "isfile stale_world ''data/gip/Node.sql''"
    by (simp add: isfile_def stale_world_def)
  have c: "fst (create_csv ''data/gip/Node.txt'' stale_world) = Inl (UnboundLocalError ''file_csv'')"
    by code_simp
  note t = ensure_skips_existing[of stale_world "''data''" "''gip.zip''" node_task]
  from t p1 p2 f1 f2 c show ?thesis by simp
qed


section \<open>Endpoint failover\<close>

declare load_loop.simps [simp del]

lemma load_loop_end:
  "\<not> cur < length (overpass_api_endpoints gs) \<Longrightarrow> load_loop nt gs q cur w = (Inr False, w)"
  by (subst load_loop.simps) simp

lemma load_loop_raised:
  assumes "cur < length (overpass_api_endpoints gs)"
    and "nt cur (request_url gs q cur) = Raised e left"
  shows "load_loop nt gs q cur w =
         load_loop nt gs q (Suc cur)
           (failed_call (request_url gs q cur) (download_target gs) left w)"
  using assms
  by (subst load_loop.simps)
    (simp add: request_url_def download_target_def is_BaseException_def Let_def)

lemma load_loop_retrieved:
  assumes "cur < length (overpass_api_endpoints gs)"
    and "nt cur (request_url gs q cur) = Retrieved content"
  shows "load_loop nt gs q cur w =
         (Inr True,
          w\<lparr>files := (files w)(download_target gs \<mapsto> content),
            trace := trace w @ [UrlRetrieve (request_url gs q cur) (download_target gs)]\<rparr>)"
  using assms
  by (subst load_loop.simps) (simp add: request_url_def download_target_def Let_def)

lemma attempts_Cons: "i < j \<Longrightarrow>
  attempts gs q i j = UrlRetrieve (request_url gs q i) (download_target gs) # attempts gs q (Suc i) j"
  by (simp add: attempts_def upt_conv_Cons)

lemma attempts_Nil: "\<not> i < j \<Longrightarrow> attempts gs q i j = []"
  by (simp add: attempts_def)

lemma failed_call_trace:
  "trace (failed_call url target left w) = trace w @ [UrlRetrieve url target]"
  by (cases left) (simp_all add: failed_call_def)

lemma failed_call_overwritten:
  "(failed_call url target left w)\<lparr>files := (files (failed_call url target left w))(target \<mapsto> content),
       trace := es\<rparr> =
   w\<lparr>files := (files w)(target \<mapsto> content), trace := es\<rparr>"
  by (cases left) (simp_all add: failed_call_def)

lemma failed_call_same_but: "same_but target w (failed_call url target left w) [UrlRetrieve url target]"
  by (cases left) (simp_all add: failed_call_def same_but_def)

lemma same_but_refl: "same_but path w w []"
  by (simp add: same_but_def)

lemma same_but_step:
  "same_but path w w1 [e] \<Longrightarrow> same_but path w1 w2 es \<Longrightarrow> same_but path w w2 (e # es)"
  by (simp add: same_but_def)

lemma load_loop_first_success:
  assumes "k < length (overpass_api_endpoints gs)" and "cur \<le> k"
    and "\<And>i. cur \<le> i \<Longrightarrow> i < k \<Longrightarrow> fails_at nt gs q i"
    and "nt k (request_url gs q k) = Retrieved content"
  shows "load_loop nt gs q cur w =
         (Inr True,
          w\<lparr>files := (files w)(download_target gs \<mapsto> content),
            trace := trace w @ attempts gs q cur (Suc k)\<rparr>)"
  using assms(2,3)
proof (induction "k - cur" arbitrary: cur w)
  case 0
  then have ck: "cur = k" by simp
  have a: "attempts gs q k (Suc k) = [UrlRetrieve (request_url gs q k) (download_target gs)]"
    by (simp add: attempts_Cons attempts_Nil)
  show ?case
    unfolding ck a
    by (rule load_loop_retrieved[where nt=nt and cur=k and gs=gs and q=q and content=content and w=w,
          OF assms(1) assms(4)])
next
  case (Suc d)
  then have lt: "cur < k" by simp
  with Suc.prems(2)[of cur] obtain e left where
    e: "nt cur (request_url gs q cur) = Raised e left"
    unfolding fails_at_def by auto
  have c: "cur < length (overpass_api_endpoints gs)"
    using lt assms(1) by simp
  define w1 where "w1 = failed_call (request_url gs q cur) (download_target gs) left w"
  have "load_loop nt gs q (Suc cur) w1 =
      (Inr True,
       w1\<lparr>files := (files w1)(download_target gs \<mapsto> content),
          trace := trace w1 @ attempts gs q (Suc cur) (Suc k)\<rparr>)"
    using Suc.hyps(2) lt Suc.prems(2)
    by (intro Suc.hyps(1)) auto
  also have "trace w1 @ attempts gs q (Suc cur) (Suc k) = trace w @ attempts gs q cur (Suc k)"
    using lt by (simp add: w1_def failed_call_trace attempts_Cons[of cur "Suc k"])
  also have "w1\<lparr>files := (files w1)(download_target gs \<mapsto> content),
          trace := trace w @ attempts gs q cur (Suc k)\<rparr> =
      w\<lparr>files := (files w)(download_target gs \<mapsto> content),
          trace := trace w @ attempts gs q cur (Suc k)\<rparr>"
    unfolding w1_def by (rule failed_call_overwritten)
  finally show ?case
    unfolding load_loop_raised[where nt=nt and cur=cur and gs=gs and q=q and e=e and left=left, OF c e]
      w1_def .
qed

lemma load_loop_all_fail:
  assumes "\<And>i. cur \<le> i \<Longrightarrow> i < length (overpass_api_endpoints gs) \<Longrightarrow> fails_at nt gs q i"
  shows "fst (load_loop nt gs q cur w) = Inr False \<and>
         same_but (download_target gs) w (snd (load_loop nt gs q cur w))
           (attempts gs q cur (length (overpass_api_endpoints gs)))"
  using assms
proof (induction "length (overpass_api_endpoints gs) - cur" arbitrary: cur w)
  case 0
  then show ?case
    by (simp add: load_loop_end attempts_Nil same_but_refl)
next
  case (Suc d)
  then have c: "cur < length (overpass_api_endpoints gs)" by simp
  with Suc.prems[of cur] obtain e left where
    e: "nt cur (request_url gs q cur) = Raised e left"
    unfolding fails_at_def by auto
  define w1 where "w1 = failed_call (request_url gs q cur) (download_target gs) left w"
  have ih: "fst (load_loop nt gs q (Suc cur) w1) = Inr False \<and>
      same_but (download_target gs) w1 (snd (load_loop nt gs q (Suc cur) w1))
        (attempts gs q (Suc cur) (length (overpass_api_endpoints gs)))"
    using Suc.hyps(2) Suc.prems
    by (intro Suc.hyps(1)) auto
  have s: "same_but (download_target gs) w w1 [UrlRetrieve (request_url gs q cur) (download_target gs)]"
    unfolding w1_def by (rule failed_call_same_but)
  show ?case
    unfolding load_loop_raised[where nt=nt and cur=cur and gs=gs and q=q and e=e and left=left, OF c e]
      w1_def[symmetric] attempts_Cons[OF c]
    using ih same_but_step[OF s] by blast
qed

lemma load_osm_success:
  assumes "k < length (overpass_api_endpoints gs)"
    and "\<forall>i<k. fails_at nt gs (q_str_of bbox) i"
    and "nt k (request_url gs (q_str_of bbox) k) = Retrieved content"
  shows "load_osm_from_bbox nt gs bbox w =
        (Inr (),
         w\<lparr>files := (files w)(download_target gs \<mapsto> content),
           trace := trace w @ attempts gs (q_str_of bbox) 0 (Suc k)\<rparr>)"
proof -
  have "load_loop nt gs (q_str_of bbox) 0 w =
         (Inr True,
          w\<lparr>files := (files w)(download_target gs \<mapsto> content),
            trace := trace w @ attempts gs (q_str_of bbox) 0 (Suc k)\<rparr>)"
    using assms by (intro load_loop_first_success) auto
  then show ?thesis
    by (simp add: load_osm_from_bbox_def bnd_def ret_def q_str_of_def)
qed

lemma load_osm_exhausted:
  assumes "\<forall>i<length (overpass_api_endpoints gs). fails_at nt gs (q_str_of bbox) i"
  shows "fst (load_osm_from_bbox nt gs bbox w) = Inl download_failed \<and>
         same_but (download_target gs) w (snd (load_osm_from_bbox nt gs bbox w))
           (attempts gs (q_str_of bbox) 0 (length (overpass_api_endpoints gs)))"
proof -
  have l: "fst (load_loop nt gs (q_str_of bbox) 0 w) = Inr False \<and>
      same_but (download_target gs) w (snd (load_loop nt gs (q_str_of bbox) 0 w))
        (attempts gs (q_str_of bbox) 0 (length (overpass_api_endpoints gs)))"
    using assms by (intro load_loop_all_fail) auto
  obtain r w' where r: "load_loop nt gs (q_str_of bbox) 0 w = (r, w')"
    by (cases "load_loop nt gs (q_str_of bbox) 0 w")
  with l have "load_osm_from_bbox nt gs bbox w = (Inl download_failed, w')"
    by (simp add: load_osm_from_bbox_def bnd_def raise_def q_str_of_def)
  with l r show ?thesis by simp
qed

text \<open>
  Claim C3. The query is built once from the bounding box. If the calls for the endpoints
  before index \<open>k\<close> raise and the call for endpoint \<open>k\<close> succeeds, the function returns,
  the download file holds what that call retrieved, and the calls made are those for the
  endpoints 0 to \<open>k\<close>, in order, each with the same query: no endpoint after \<open>k\<close> is
  tried. If the call for every endpoint raises, the function raises the exception
  "OSM data download was not successful" and so returns nothing, after one call for each
  endpoint in order; no table and no file other than the download target is changed
  (the target holds what the failed calls left in it).
\<close>

theorem failover:
  "(k < length (overpass_api_endpoints gs) \<and> (\<forall>i<k. fails_at nt gs (q_str_of bbox) i) \<and>
    nt k (request_url gs (q_str_of bbox) k) = Retrieved content \<longrightarrow>
      load_osm_from_bbox nt gs bbox w =
        (Inr (),
         w\<lparr>files := (files w)(download_target gs \<mapsto> content),
           trace := trace w @ attempts gs (q_str_of bbox) 0 (Suc k)\<rparr>)) \<and>
   ((\<forall>i<length (overpass_api_endpoints gs). fails_at nt gs (q_str_of bbox) i) \<longrightarrow>
      fst (load_osm_from_bbox nt gs bbox w) = Inl download_failed \<and>
      same_but (download_target gs) w (snd (load_osm_from_bbox nt gs bbox w))
        (attempts gs (q_str_of bbox) 0 (length (overpass_api_endpoints gs))))"
  using load_osm_success[of k gs nt bbox content w] load_osm_exhausted[of gs nt bbox w]
  by blast

text \<open>The theorem on the two networks.\<close>

theorem failover_witness:
  "third_answers 1 (request_url four_endpoints (q_str_of ''1,2,3,4'') 1) =
     Raised ContentTooShortError (Some ''<os'') \<and>
   load_osm_from_bbox third_answers four_endpoints ''1,2,3,4'' empty_world =
     (Inr (),
      empty_world\<lparr>files := [''data/osm_download.xml'' \<mapsto> ''<osm/>''],
        trace := map (\<lambda>e. UrlRetrieve (e @ ''?data='' @ quote_plus (q_str_of ''1,2,3,4'')) ''data/osm_download.xml'')
                   [''https://a.example/api'', ''https://b.example/api'', ''https://c.example/api'']\<rparr>) \<and>
   fst (load_osm_from_bbox none_answers four_endpoints ''1,2,3,4'' empty_world) = Inl download_failed \<and>
   same_but ''data/osm_download.xml'' empty_world
     (snd (load_osm_from_bbox none_answers four_endpoints ''1,2,3,4'' empty_world))
     (map (\<lambda>e. UrlRetrieve (e @ ''?data='' @ quote_plus (q_str_of ''1,2,3,4'')) ''data/osm_download.xml'')
        [''https://a.example/api'', ''https://b.example/api'', ''https://c.example/api'',
         ''https://d.example/api''])"
proof -
  have len: "length (overpass_api_endpoints four_endpoints) = 4"
    by (simp add: four_endpoints_def)
  have tgt: "download_target four_endpoints = ''data/osm_download.xml''"
    by (simp add: download_target_def four_endpoints_def path_join_def join2_def startswith_def)
  have p: "third_answers 1 (request_url four_endpoints (q_str_of ''1,2,3,4'') 1) =
     Raised ContentTooShortError (Some ''<os'')"
    by (simp add: third_answers_def)
  have f: "\<forall>i<2. fails_at third_answers four_endpoints (q_str_of ''1,2,3,4'') i"
    by (simp add: fails_at_def third_answers_def)
  have s: "third_answers 2 (request_url four_endpoints (q_str_of ''1,2,3,4'') 2) = Retrieved ''<osm/>''"
    by (simp add: third_answers_def)
  have n: "\<forall>i<length (overpass_api_endpoints four_endpoints).
      fails_at none_answers four_endpoints (q_str_of ''1,2,3,4'') i"
    by (simp add: fails_at_def none_answers_def)
  have a3: "attempts four_endpoints (q_str_of ''1,2,3,4'') 0 (Suc 2) =
      map (\<lambda>e. UrlRetrieve (e @ ''?data='' @ quote_plus (q_str_of ''1,2,3,4'')) ''data/osm_download.xml'')
        [''https://a.example/api'', ''https://b.example/api'', ''https://c.example/api'']"
    unfolding attempts_def tgt
    by (simp add: request_url_def four_endpoints_def upt_rec numeral_3_eq_3 numeral_2_eq_2)
  have a4: "attempts four_endpoints (q_str_of ''1,2,3,4'') 0 (length (overpass_api_endpoints four_endpoints)) =
      map (\<lambda>e. UrlRetrieve (e @ ''?data='' @ quote_plus (q_str_of ''1,2,3,4'')) ''data/osm_download.xml'')
        [''https://a.example/api'', ''https://b.example/api'', ''https://c.example/api'',
         ''https://d.example/api'']"
    unfolding attempts_def tgt
    by (simp add: request_url_def four_endpoints_def upt_rec)
  note t = failover[of 2 four_endpoints third_answers "''1,2,3,4''" "''<osm/>''" empty_world]
    failover[of 0 four_endpoints none_answers "''1,2,3,4''" "''<osm/>''" empty_world]
  have 1: "load_osm_from_bbox third_answers four_endpoints ''1,2,3,4'' empty_world =
     (Inr (),
      empty_world\<lparr>files := (files empty_world)(download_target four_endpoints \<mapsto> ''<osm/>''),
        trace := trace empty_world @ attempts four_endpoints (q_str_of ''1,2,3,4'') 0 (Suc 2)\<rparr>)"
    using t(1) f s len by simp
  have 2: "fst (load_osm_from_bbox none_answers four_endpoints ''1,2,3,4'' empty_world) = Inl download_failed \<and>
     same_but (download_target four_endpoints) empty_world
       (snd (load_osm_from_bbox none_answers four_endpoints ''1,2,3,4'' empty_world))
       (attempts four_endpoints (q_str_of ''1,2,3,4'') 0 (length (overpass_api_endpoints four_endpoints)))"
    using t(2) n by blast
  have e: "files empty_world = Map.empty" "trace empty_world = []"
    by (simp_all add: empty_world_def)
  from 2 have second: "fst (load_osm_from_bbox none_answers four_endpoints ''1,2,3,4'' empty_world) = Inl download_failed \<and>
     same_but ''data/osm_download.xml'' empty_world
       (snd (load_osm_from_bbox none_answers four_endpoints ''1,2,3,4'' empty_world))
       (map (\<lambda>e. UrlRetrieve (e @ ''?data='' @ quote_plus (q_str_of ''1,2,3,4'')) ''data/osm_download.xml'')
        [''https://a.example/api'', ''https://b.example/api'', ''https://c.example/api'',
         ''https://d.example/api''])"
    unfolding a4 tgt .
  from 1 have first: "load_osm_from_bbox third_answers four_endpoints ''1,2,3,4'' empty_world =
     (Inr (),
      empty_world\<lparr>files := [''data/osm_download.xml'' \<mapsto> ''<osm/>''],
        trace := map (\<lambda>e. UrlRetrieve (e @ ''?data='' @ quote_plus (q_str_of ''1,2,3,4'')) ''data/osm_download.xml'')
                   [''https://a.example/api'', ''https://b.example/api'', ''https://c.example/api'']\<rparr>)"
    unfolding a3 tgt e by simp
  from p first second show ?thesis by blast
qed

lemma load_loop_returns: "\<exists>b w'. load_loop nt gs q cur w = (Inr b, w')"
proof (induction "length (overpass_api_endpoints gs) - cur" arbitrary: cur w)
  case 0
  then have "load_loop nt gs q cur w = (Inr False, w)"
    by (simp add: load_loop_end)
  then show ?case by blast
next
  case (Suc d)
  then have c: "cur < length (overpass_api_endpoints gs)" by simp
  show ?case
  proof (cases "nt cur (request_url gs q cur)")
    case (Retrieved content)
    from load_loop_retrieved[where nt=nt and cur=cur and gs=gs and q=q and content=content and w=w, OF c Retrieved]
    show ?thesis by blast
  next
    case (Raised e left)
    have "Suc d = length (overpass_api_endpoints gs) - cur" by (rule Suc.hyps(2))
    then have "d = length (overpass_api_endpoints gs) - Suc cur" by simp
    from Suc.hyps(1)[OF this]
    show ?thesis
      unfolding load_loop_raised[where nt=nt and cur=cur and gs=gs and q=q and e=e and left=left, OF c Raised] .
  qed
qed

lemma load_loop_False_all_failed:
  "load_loop nt gs q cur w = (Inr False, w') \<Longrightarrow> cur \<le> i \<Longrightarrow>
   i < length (overpass_api_endpoints gs) \<Longrightarrow> fails_at nt gs q i"
proof (induction "length (overpass_api_endpoints gs) - cur" arbitrary: cur w)
  case 0
  then show ?case by simp
next
  case (Suc d)
  then have c: "cur < length (overpass_api_endpoints gs)" by simp
  show ?case
  proof (cases "nt cur (request_url gs q cur)")
    case (Retrieved content)
    from load_loop_retrieved[where nt=nt and cur=cur and gs=gs and q=q and content=content and w=w, OF c Retrieved]
      Suc.prems(1)
    show ?thesis by simp
  next
    case (Raised e left)
    show ?thesis
    proof (cases "i = cur")
      case True
      with Raised show ?thesis by (auto simp: fails_at_def)
    next
      case False
      with Suc.prems(2) have i: "Suc cur \<le> i" by simp
      have d: "d = length (overpass_api_endpoints gs) - Suc cur"
        using Suc.hyps(2) by simp
      from Suc.prems(1)
      have "load_loop nt gs q (Suc cur)
           (failed_call (request_url gs q cur) (download_target gs) left w) = (Inr False, w')"
        unfolding load_loop_raised[where nt=nt and cur=cur and gs=gs and q=q and e=e and left=left, OF c Raised] .
      from Suc.hyps(1)[OF d this i Suc.prems(3)] show ?thesis .
    qed
  qed
qed

text \<open>
  Claim C9. Whatever the class of the exception a call of \<open>urlretrieve\<close> raises, the
  loop goes on with the next endpoint, in the world that call left. No exception of a
  call reaches the caller: the function returns or raises "OSM data download was not
  successful", and it raises that only when the call for every endpoint has raised.
\<close>

theorem every_exception_caught:
  "(\<forall>cur e left. cur < length (overpass_api_endpoints gs) \<and>
        nt cur (request_url gs (q_str_of bbox) cur) = Raised e left \<longrightarrow>
      load_loop nt gs (q_str_of bbox) cur w =
      load_loop nt gs (q_str_of bbox) (Suc cur)
        (failed_call (request_url gs (q_str_of bbox) cur) (download_target gs) left w)) \<and>
   (\<forall>e. fst (load_osm_from_bbox nt gs bbox w) \<noteq> Inl (Uncaught e)) \<and>
   (fst (load_osm_from_bbox nt gs bbox w) = Inr () \<or>
    fst (load_osm_from_bbox nt gs bbox w) = Inl download_failed) \<and>
   (fst (load_osm_from_bbox nt gs bbox w) = Inl download_failed \<longrightarrow>
      (\<forall>i<length (overpass_api_endpoints gs). fails_at nt gs (q_str_of bbox) i))"
proof -
  obtain b w' where l: "load_loop nt gs (q_str_of bbox) 0 w = (Inr b, w')"
    using load_loop_returns by blast
  have r: "fst (load_osm_from_bbox nt gs bbox w) = (if b then Inr () else Inl download_failed)"
    using l by (simp add: load_osm_from_bbox_def bnd_def raise_def ret_def q_str_of_def)
  have 1: "\<forall>cur e left. cur < length (overpass_api_endpoints gs) \<and>
        nt cur (request_url gs (q_str_of bbox) cur) = Raised e left \<longrightarrow>
      load_loop nt gs (q_str_of bbox) cur w =
      load_loop nt gs (q_str_of bbox) (Suc cur)
        (failed_call (request_url gs (q_str_of bbox) cur) (download_target gs) left w)"
    using load_loop_raised by blast
  have 2: "\<forall>e. fst (load_osm_from_bbox nt gs bbox w) \<noteq> Inl (Uncaught e)"
    unfolding r by (simp add: download_failed_def)
  have 3: "fst (load_osm_from_bbox nt gs bbox w) = Inr () \<or>
    fst (load_osm_from_bbox nt gs bbox w) = Inl download_failed"
    unfolding r by simp
  have 4: "fst (load_osm_from_bbox nt gs bbox w) = Inl download_failed \<longrightarrow>
      (\<forall>i<length (overpass_api_endpoints gs). fails_at nt gs (q_str_of bbox) i)"
  proof (intro impI allI)
    fix i
    assume "fst (load_osm_from_bbox nt gs bbox w) = Inl download_failed"
      and i: "i < length (overpass_api_endpoints gs)"
    then have "\<not> b" unfolding r by (simp split: if_splits)
    with l have "load_loop nt gs (q_str_of bbox) 0 w = (Inr False, w')" by simp
    from load_loop_False_all_failed[OF this _ i] show "fails_at nt gs (q_str_of bbox) i" by simp
  qed
  from 1 2 3 4 show ?thesis by blast
qed

text \<open>The theorem on the network whose calls raise \<open>KeyboardInterrupt\<close> and \<open>SystemExit\<close>.\<close>

theorem every_exception_caught_witness:
  "fst (load_osm_from_bbox none_answers four_endpoints ''1,2,3,4'' empty_world) = Inl download_failed \<and>
   none_answers 0 (request_url four_endpoints (q_str_of ''1,2,3,4'') 0) =
     Raised KeyboardInterrupt (Some []) \<and>
   none_answers 1 (request_url four_endpoints (q_str_of ''1,2,3,4'') 1) = Raised SystemExit None \<and>
   fails_at none_answers four_endpoints (q_str_of ''1,2,3,4'') 3 \<and>
   load_loop none_answers four_endpoints (q_str_of ''1,2,3,4'') 0 empty_world =
     load_loop none_answers four_endpoints (q_str_of ''1,2,3,4'') (Suc 0)
       (failed_call (request_url four_endpoints (q_str_of ''1,2,3,4'') 0)
          (download_target four_endpoints) (Some []) empty_world)"
proof -
  note t = every_exception_caught[of four_endpoints none_answers "''1,2,3,4''" empty_world]
  have len: "length (overpass_api_endpoints four_endpoints) = 4"
    by (simp add: four_endpoints_def)
  have k: "none_answers 0 (request_url four_endpoints (q_str_of ''1,2,3,4'') 0) =
      Raised KeyboardInterrupt (Some [])"
    "none_answers 1 (request_url four_endpoints (q_str_of ''1,2,3,4'') 1) = Raised SystemExit None"
    by (simp_all add: none_answers_def)
  have n: "\<forall>i<length (overpass_api_endpoints four_endpoints).
      fails_at none_answers four_endpoints (q_str_of ''1,2,3,4'') i"
    by (simp add: fails_at_def none_answers_def)
  have d: "fst (load_osm_from_bbox none_answers four_endpoints ''1,2,3,4'' empty_world) = Inl download_failed"
    using load_osm_exhausted[OF n] by simp
  from t d have "\<forall>i<length (overpass_api_endpoints four_endpoints).
      fails_at none_answers four_endpoints (q_str_of ''1,2,3,4'') i"
    by blast
  then have f3: "fails_at none_answers four_endpoints (q_str_of ''1,2,3,4'') 3"
    using len by simp
  from t k(1) len have s: "load_loop none_answers four_endpoints (q_str_of ''1,2,3,4'') 0 empty_world =
     load_loop none_answers four_endpoints (q_str_of ''1,2,3,4'') (Suc 0)
       (failed_call (request_url four_endpoints (q_str_of ''1,2,3,4'') 0)
          (download_target four_endpoints) (Some []) empty_world)"
    by simp
  from d k f3 s show ?thesis by blast
qed

section \<open>The statement \<open>create_sql\<close> writes\<close>

declare rename_offset_from.simps [simp del]

lemma rename_offset_from_nth:
  "length (rename_offset_from i atr) = length atr \<and>
   (\<forall>j<length atr. rename_offset_from i atr ! j = (if i \<le> j then rename_rule (atr ! j) else atr ! j))"
proof (induction i atr rule: rename_offset_from.induct)
  case (1 i atr)
  show ?case
  proof (cases "i < length atr")
    case False
    then show ?thesis
      by (subst (1 2) rename_offset_from.simps) simp
  next
    case True
    define atr' where "atr' = (if atr ! i = ''offset'' then atr[i := ''offset_''] else atr)"
    have step: "rename_offset_from i atr = rename_offset_from (Suc i) atr'"
      using True by (subst rename_offset_from.simps) (simp add: atr'_def)
    have len: "length atr' = length atr"
      by (simp add: atr'_def)
    from 1[OF True] have ih: "length (rename_offset_from (Suc i) atr') = length atr' \<and>
       (\<forall>j<length atr'. rename_offset_from (Suc i) atr' ! j =
          (if Suc i \<le> j then rename_rule (atr' ! j) else atr' ! j))"
      by (simp add: atr'_def)
    have "rename_offset_from (Suc i) atr' ! j = (if i \<le> j then rename_rule (atr ! j) else atr ! j)"
      if "j < length atr" for j
    proof -
      from ih that len have "rename_offset_from (Suc i) atr' ! j =
          (if Suc i \<le> j then rename_rule (atr' ! j) else atr' ! j)" by simp
      also have "\<dots> = (if i \<le> j then rename_rule (atr ! j) else atr ! j)"
        using that True by (cases "j = i") (auto simp: atr'_def rename_rule_def)
      finally show ?thesis .
    qed
    with ih len show ?thesis
      unfolding step by simp
  qed
qed

lemma rename_offset_map: "rename_offset atr = map rename_rule atr"
  using rename_offset_from_nth[of 0 atr]
  by (simp add: rename_offset_def list_eq_iff_nth_eq)

lemma sql_lines_locals:
  "fst (sql_lines out ls l w) = fst (sql_lines out' ls l w')"
  by (induction ls arbitrary: l w w') auto

lemma sql_lines_header: "fst (sql_lines out ls no_locals w) = header_of ls"
  unfolding header_of_def by (rule sql_lines_locals)

lemma open_w_files: "files (open_w out w) out = Some []"
  by (simp add: open_w_def)

lemma sql_lines_file:
  "l_tbl l = None \<or> files w out = Some [] \<Longrightarrow>
   l_tbl (fst (sql_lines out ls l w)) = None \<or> files (snd (sql_lines out ls l w)) out = Some []"
  by (induction ls arbitrary: l w) (auto simp: open_w_files)

lemma flush_empty:
  "files w out = Some [] \<Longrightarrow> files (flush_at_0 out text w) out = Some (utf8_encode text)"
  by (simp add: flush_at_0_def)

lemma build_sql_Inr:
  "build_sql l = Inr sql \<longleftrightarrow>
     (\<exists>tbl atr frm tys. l = \<lparr>l_tbl = Some tbl, l_atr = Some atr, l_frm = Some frm\<rparr> \<and>
        map_types frm = Inr tys \<and>
        sql = sql_statement tbl (columns_of (rename_offset atr) tys))"
  by (cases l) (auto simp: build_sql_def sql_statement_def split: option.splits sum.splits)

lemma create_sql_unfold:
  assumes "files w path = Some bytes"
  shows "create_sql path w =
     (let out = fst (splitext path) @ ''.sql'';
          r = sql_lines out (readlines (universal_newlines bytes)) no_locals
                (w\<lparr>trace := trace w @ [OpenRead path]\<rparr>)
      in case build_sql (fst r) of
           Inl e \<Rightarrow> (Inl e, snd r)
         | Inr sql \<Rightarrow> (Inr (), flush_at_0 out sql (snd r)))"
  unfolding create_sql_def bnd_def open_r_Some[OF assms]
  by (simp add: Let_def case_prod_beta)

lemma create_sql_writes:
  assumes "files w path = Some bytes"
    and "build_sql (header_of (readlines (universal_newlines bytes))) = Inr sql"
  shows "fst (create_sql path w) = Inr () \<and>
         files (snd (create_sql path w)) (fst (splitext path) @ ''.sql'') = Some (utf8_encode sql)"
proof -
  define out where "out = fst (splitext path) @ ''.sql''"
  define r where "r = sql_lines out (readlines (universal_newlines bytes)) no_locals
                (w\<lparr>trace := trace w @ [OpenRead path]\<rparr>)"
  have h: "fst r = header_of (readlines (universal_newlines bytes))"
    unfolding r_def by (rule sql_lines_header)
  have c: "create_sql path w = (Inr (), flush_at_0 out sql (snd r))"
    using assms(2) h unfolding create_sql_unfold[OF assms(1)] out_def r_def Let_def by simp
  have "l_tbl (fst r) \<noteq> None"
    using assms(2) h by (auto simp: build_sql_Inr)
  moreover have "l_tbl (fst r) = None \<or> files (snd r) out = Some []"
    unfolding r_def by (rule sql_lines_file) (simp add: no_locals_def)
  ultimately have "files (snd r) out = Some []" by auto
  then show ?thesis
    unfolding c out_def[symmetric] by (simp add: flush_empty)
qed

lemma create_sql_ok_build:
  assumes "files w path = Some bytes" and "fst (create_sql path w) = Inr ()"
  shows "\<exists>sql. build_sql (header_of (readlines (universal_newlines bytes))) = Inr sql"
proof (cases "build_sql (header_of (readlines (universal_newlines bytes)))")
  case (Inl e)
  then have "fst (create_sql path w) = Inl e"
    unfolding create_sql_unfold[OF assms(1)] Let_def sql_lines_header by simp
  with assms(2) show ?thesis by simp
next
  case (Inr sql)
  then show ?thesis by blast
qed

lemma columns_of_nth:
  "length (columns_of atr frm) = min (length atr) (length frm) \<and>
   (\<forall>i<min (length atr) (length frm). columns_of atr frm ! i = atr ! i @ '' '' @ frm ! i)"
  by (simp add: columns_of_def)

lemma map_types_length: "map_types frm = Inr tys \<Longrightarrow> length tys = length frm"
  unfolding map_types_iff by (metis length_map)

text \<open>
  Claim C5, as the code has it. \<open>create_sql\<close> does not compare the numbers of names
  and of types: \<open>zip\<close> pairs them by position and drops what is left of the longer
  list. For every file whose first loop leaves \<open>tbl\<close>, \<open>atr\<close> and \<open>frm\<close> assigned
  and whose types all map, \<open>create_sql\<close> succeeds and writes the statement whose
  columns are the first \<open>min (len(atr)) (len(frm))\<close> pairs of a (renamed) name and a
  mapped type, whether or not the two counts are equal.
\<close>

theorem unequal_counts_truncate:
  assumes "files w path = Some bytes"
    and "header_of (readlines (universal_newlines bytes)) =
           \<lparr>l_tbl = Some tbl, l_atr = Some atr, l_frm = Some frm\<rparr>"
    and "map_types frm = Inr tys"
  shows "fst (create_sql path w) = Inr () \<and>
         files (snd (create_sql path w)) (fst (splitext path) @ ''.sql'') =
           Some (utf8_encode (sql_statement tbl (columns_of (rename_offset atr) tys))) \<and>
         length (columns_of (rename_offset atr) tys) = min (length atr) (length frm) \<and>
         (\<forall>i<min (length atr) (length frm).
            columns_of (rename_offset atr) tys ! i = rename_offset atr ! i @ '' '' @ tys ! i)"
proof -
  have "build_sql (header_of (readlines (universal_newlines bytes))) =
      Inr (sql_statement tbl (columns_of (rename_offset atr) tys))"
    unfolding build_sql_Inr using assms(2,3) by blast
  from create_sql_writes[OF assms(1) this] columns_of_nth[of "rename_offset atr" tys]
    map_types_length[OF assms(3)] rename_offset_map[of atr]
  show ?thesis by simp
qed

lemma uneven_header:
  "header_of (readlines (universal_newlines
      (''tbl;T'' @ [nl] @ ''atr;a;Offset;c'' @ [nl] @ ''frm;string;decimal(3)'' @ [nl] @ ''rec;1;2;3'' @ [nl]))) =
   \<lparr>l_tbl = Some ''t'', l_atr = Some [''a'', ''offset'', ''c''], l_frm = Some [''string'', ''decimal(3)'']\<rparr>"
  by code_simp

lemma uneven_types: "map_types [''string'', ''decimal(3)''] = Inr [''varchar'', ''smallint'']"
  by code_simp

lemma uneven_file:
  "files uneven_world ''data/t.txt'' =
     Some (''tbl;T'' @ [nl] @ ''atr;a;Offset;c'' @ [nl] @ ''frm;string;decimal(3)'' @ [nl] @ ''rec;1;2;3'' @ [nl])"
  by (simp add: uneven_world_def)

text \<open>The theorem at the file with three names and two types.\<close>

theorem unequal_counts_truncate_witness:
  "fst (create_sql ''data/t.txt'' uneven_world) = Inr () \<and>
   files (snd (create_sql ''data/t.txt'' uneven_world)) ''data/t.sql'' =
     Some ''CREATE TABLE gip_t (a varchar, offset_ smallint);'' \<and>
   length (columns_of (rename_offset [''a'', ''offset'', ''c'']) [''varchar'', ''smallint'']) = 2"
proof -
  note t = unequal_counts_truncate[OF uneven_file uneven_header uneven_types]
  have p: "fst (splitext ''data/t.txt'') @ ''.sql'' = ''data/t.sql''"
    by code_simp
  have s: "utf8_encode (sql_statement ''t'' (columns_of (rename_offset [''a'', ''offset'', ''c'']) [''varchar'', ''smallint''])) =
      ''CREATE TABLE gip_t (a varchar, offset_ smallint);''"
    by code_simp
  from t show ?thesis
    unfolding p s by simp
qed

text \<open>
  Claim C5 as the specification states it fails: the file has three names and two
  types, and \<open>create_sql\<close> succeeds and writes a statement of two columns.
\<close>

theorem unequal_counts_counterexample:
  "l_atr (header_of (readlines (universal_newlines
      (''tbl;T'' @ [nl] @ ''atr;a;Offset;c'' @ [nl] @ ''frm;string;decimal(3)'' @ [nl] @ ''rec;1;2;3'' @ [nl])))) =
     Some [''a'', ''offset'', ''c''] \<and>
   l_frm (header_of (readlines (universal_newlines
      (''tbl;T'' @ [nl] @ ''atr;a;Offset;c'' @ [nl] @ ''frm;string;decimal(3)'' @ [nl] @ ''rec;1;2;3'' @ [nl])))) =
     Some [''string'', ''decimal(3)''] \<and>
   fst (create_sql ''data/t.txt'' uneven_world) = Inr () \<and>
   files (snd (create_sql ''data/t.txt'' uneven_world)) ''data/t.sql'' =
     Some ''CREATE TABLE gip_t (a varchar, offset_ smallint);''"
  by code_simp

lemma startswith_atr: "startswith line ''atr;'' \<Longrightarrow> \<not> startswith line ''tbl;''"
  by (auto simp: startswith_def)

lemma sql_lines_append:
  "list_all (\<lambda>l. \<not> startswith l ''rec;'') pre \<Longrightarrow>
   sql_lines out (pre @ rest) l w =
   sql_lines out rest (fst (sql_lines out pre l w)) (snd (sql_lines out pre l w))"
  by (induction pre arbitrary: l w) simp_all

lemma sql_lines_keeps_atr:
  "list_all (\<lambda>l. \<not> startswith l ''atr;'') post \<Longrightarrow>
   l_atr (fst (sql_lines out post l w)) = l_atr l"
  by (induction post arbitrary: l w) simp_all

lemma header_of_atr:
  assumes "list_all (\<lambda>l. \<not> startswith l ''rec;'') pre" and "startswith line ''atr;''"
    and "list_all (\<lambda>l. \<not> startswith l ''atr;'') post"
  shows "l_atr (header_of (pre @ line # post)) =
         Some (py_split (CHR '';'') (lower (strip (drop 4 line))))"
  unfolding header_of_def sql_lines_append[OF assms(1)]
  using assms(2) startswith_atr[OF assms(2)]
  by (simp add: sql_lines_keeps_atr[OF assms(3)])

text \<open>
  Claim C8, as the code has it. The \<open>atr\<close> record is trimmed and lower-cased as a whole
  and then split at the semicolons: the column names are the fields so obtained, and
  white space beside an inner field stays in its name. The renaming loop keeps the
  number of names, turns every name that is exactly \<open>offset\<close> into \<open>offset_\<close> and
  leaves every other name as it is; and whenever \<open>create_sql\<close> succeeds, the names of
  the statement it writes are the names so renamed.
\<close>

theorem offset_renamed:
  "(list_all (\<lambda>l. \<not> startswith l ''rec;'') pre \<and> startswith line ''atr;'' \<and>
    list_all (\<lambda>l. \<not> startswith l ''atr;'') post \<longrightarrow>
      l_atr (header_of (pre @ line # post)) =
        Some (py_split (CHR '';'') (lower (strip (drop 4 line))))) \<and>
   length (rename_offset atr) = length atr \<and>
   (\<forall>i<length atr. (atr ! i = ''offset'' \<longrightarrow> rename_offset atr ! i = ''offset_'') \<and>
                    (atr ! i \<noteq> ''offset'' \<longrightarrow> rename_offset atr ! i = atr ! i)) \<and>
   (files w path = Some bytes \<and> fst (create_sql path w) = Inr () \<longrightarrow>
      (\<exists>tbl names frm tys.
         header_of (readlines (universal_newlines bytes)) =
           \<lparr>l_tbl = Some tbl, l_atr = Some names, l_frm = Some frm\<rparr> \<and>
         map_types frm = Inr tys \<and>
         files (snd (create_sql path w)) (fst (splitext path) @ ''.sql'') =
           Some (utf8_encode (sql_statement tbl
                   (columns_of (map (\<lambda>a. if a = ''offset'' then ''offset_'' else a) names) tys)))))"
proof (intro conjI impI)
  assume "list_all (\<lambda>l. \<not> startswith l ''rec;'') pre \<and> startswith line ''atr;'' \<and>
    list_all (\<lambda>l. \<not> startswith l ''atr;'') post"
  then show "l_atr (header_of (pre @ line # post)) =
        Some (py_split (CHR '';'') (lower (strip (drop 4 line))))"
    using header_of_atr by blast
next
  show "length (rename_offset atr) = length atr"
    by (simp add: rename_offset_map)
  show "\<forall>i<length atr. (atr ! i = ''offset'' \<longrightarrow> rename_offset atr ! i = ''offset_'') \<and>
                    (atr ! i \<noteq> ''offset'' \<longrightarrow> rename_offset atr ! i = atr ! i)"
    by (simp add: rename_offset_map rename_rule_def)
next
  assume a: "files w path = Some bytes \<and> fst (create_sql path w) = Inr ()"
  then obtain sql where b: "build_sql (header_of (readlines (universal_newlines bytes))) = Inr sql"
    using create_sql_ok_build by blast
  then obtain tbl names frm tys where
    h: "header_of (readlines (universal_newlines bytes)) =
           \<lparr>l_tbl = Some tbl, l_atr = Some names, l_frm = Some frm\<rparr>"
    and m: "map_types frm = Inr tys"
    and s: "sql = sql_statement tbl (columns_of (rename_offset names) tys)"
    unfolding build_sql_Inr by blast
  have r: "rename_offset names = map (\<lambda>a. if a = ''offset'' then ''offset_'' else a) names"
    unfolding rename_offset_map rename_rule_def ..
  from create_sql_writes[OF conjunct1[OF a] b]
  have "files (snd (create_sql path w)) (fst (splitext path) @ ''.sql'') =
      Some (utf8_encode (sql_statement tbl
                   (columns_of (map (\<lambda>a. if a = ''offset'' then ''offset_'' else a) names) tys)))"
    unfolding s r by simp
  with h m show "\<exists>tbl names frm tys.
         header_of (readlines (universal_newlines bytes)) =
           \<lparr>l_tbl = Some tbl, l_atr = Some names, l_frm = Some frm\<rparr> \<and>
         map_types frm = Inr tys \<and>
         files (snd (create_sql path w)) (fst (splitext path) @ ''.sql'') =
           Some (utf8_encode (sql_statement tbl
                   (columns_of (map (\<lambda>a. if a = ''offset'' then ''offset_'' else a) names) tys)))"
    by blast
qed

text \<open>The theorem at the file whose second name is \<open>Offset\<close>.\<close>

theorem offset_renamed_witness:
  "l_atr (header_of [''tbl;T'' @ [nl], ''atr;a;Offset;c'' @ [nl], ''frm;string;decimal(3)'' @ [nl]]) =
     Some [''a'', ''offset'', ''c''] \<and>
   rename_offset [''a'', ''offset'', ''c''] ! 0 = ''a'' \<and>
   rename_offset [''a'', ''offset'', ''c''] ! 1 = ''offset_'' \<and>
   rename_offset [''a'', ''offset'', ''c''] ! 2 = ''c'' \<and>
   files (snd (create_sql ''data/t.txt'' uneven_world)) ''data/t.sql'' =
     Some ''CREATE TABLE gip_t (a varchar, offset_ smallint);''"
proof -
  note t = offset_renamed[where atr="[''a'', ''offset'', ''c'']" and w=uneven_world
      and path="''data/t.txt''"
      and bytes="''tbl;T'' @ [nl] @ ''atr;a;Offset;c'' @ [nl] @ ''frm;string;decimal(3)'' @ [nl] @ ''rec;1;2;3'' @ [nl]"
      and pre="[''tbl;T'' @ [nl]]" and line="''atr;a;Offset;c'' @ [nl]"
      and post="[''frm;string;decimal(3)'' @ [nl]]"]
  from t have n: "\<forall>i<length [''a'', ''offset'', ''c''].
      ([''a'', ''offset'', ''c''] ! i = ''offset'' \<longrightarrow> rename_offset [''a'', ''offset'', ''c''] ! i = ''offset_'') \<and>
      ([''a'', ''offset'', ''c''] ! i \<noteq> ''offset'' \<longrightarrow> rename_offset [''a'', ''offset'', ''c''] ! i = [''a'', ''offset'', ''c''] ! i)"
    by blast
  have 0: "rename_offset [''a'', ''offset'', ''c''] ! 0 = ''a''"
    using n[rule_format, of 0] by simp
  have 1: "rename_offset [''a'', ''offset'', ''c''] ! 1 = ''offset_''"
    using n[rule_format, of 1] by simp
  have 2: "rename_offset [''a'', ''offset'', ''c''] ! 2 = ''c''"
    using n[rule_format, of 2] by simp
  have ok: "fst (create_sql ''data/t.txt'' uneven_world) = Inr ()"
    by code_simp
  have l1: "list_all (\<lambda>l. \<not> startswith l ''rec;'') [''tbl;T'' @ [nl]]"
    and l2: "startswith (''atr;a;Offset;c'' @ [nl]) ''atr;''"
    and l3: "list_all (\<lambda>l. \<not> startswith l ''atr;'') [''frm;string;decimal(3)'' @ [nl]]"
    by (simp_all add: startswith_def)
  have sp: "py_split (CHR '';'') (lower (strip (drop 4 (''atr;a;Offset;c'' @ [nl])))) =
      [''a'', ''offset'', ''c'']"
    by code_simp
  from t l1 l2 l3 have
    "l_atr (header_of ([''tbl;T'' @ [nl]] @ (''atr;a;Offset;c'' @ [nl]) # [''frm;string;decimal(3)'' @ [nl]])) =
       Some (py_split (CHR '';'') (lower (strip (drop 4 (''atr;a;Offset;c'' @ [nl])))))"
    by blast
  then have origin: "l_atr (header_of [''tbl;T'' @ [nl], ''atr;a;Offset;c'' @ [nl], ''frm;string;decimal(3)'' @ [nl]]) =
     Some [''a'', ''offset'', ''c'']"
    unfolding sp by simp
  from t uneven_file ok obtain tbl names frm tys where
    h: "header_of (readlines (universal_newlines
          (''tbl;T'' @ [nl] @ ''atr;a;Offset;c'' @ [nl] @ ''frm;string;decimal(3)'' @ [nl] @ ''rec;1;2;3'' @ [nl]))) =
        \<lparr>l_tbl = Some tbl, l_atr = Some names, l_frm = Some frm\<rparr>"
    and m: "map_types frm = Inr tys"
    and f: "files (snd (create_sql ''data/t.txt'' uneven_world)) (fst (splitext ''data/t.txt'') @ ''.sql'') =
        Some (utf8_encode (sql_statement tbl
                (columns_of (map (\<lambda>a. if a = ''offset'' then ''offset_'' else a) names) tys)))"
    by blast
  from arg_cong[OF h, of l_tbl] have v1: "tbl = ''t''"
    unfolding uneven_header by simp
  from arg_cong[OF h, of l_atr] have v2: "names = [''a'', ''offset'', ''c'']"
    unfolding uneven_header by simp
  from arg_cong[OF h, of l_frm] have v3: "frm = [''string'', ''decimal(3)'']"
    unfolding uneven_header by simp
  note v = v1 v2 v3
  from m have tys: "tys = [''varchar'', ''smallint'']"
    unfolding v uneven_types by simp
  have p: "fst (splitext ''data/t.txt'') @ ''.sql'' = ''data/t.sql''"
    by code_simp
  have s: "utf8_encode (sql_statement ''t''
        (columns_of (map (\<lambda>a. if a = ''offset'' then ''offset_'' else a) [''a'', ''offset'', ''c''])
           [''varchar'', ''smallint''])) = ''CREATE TABLE gip_t (a varchar, offset_ smallint);''"
    by code_simp
  from f have "files (snd (create_sql ''data/t.txt'' uneven_world)) ''data/t.sql'' =
     Some ''CREATE TABLE gip_t (a varchar, offset_ smallint);''"
    unfolding v tys p s .
  with origin 0 1 2 show ?thesis by blast
qed


text \<open>
  Claim C8 as the specification states it fails: the second and third field of the
  record, each trimmed and lower-cased, are exactly \<open>offset\<close>, and the statement has
  them as they stand, not renamed.
\<close>

theorem offset_renamed_counterexample:
  "py_split (CHR '';'') ''a; offset;Offset ;c'' = [''a'', '' offset'', ''Offset '', ''c''] \<and>
   lower (strip '' offset'') = ''offset'' \<and>
   lower (strip ''Offset '') = ''offset'' \<and>
   l_atr (header_of (readlines (universal_newlines
      (''tbl;t'' @ [nl] @ ''atr;a; offset;Offset ;c'' @ [nl] @ ''frm;x;y;z;u'' @ [nl])))) =
     Some [''a'', '' offset'', ''offset '', ''c''] \<and>
   fst (create_sql ''data/t.txt'' spaced_world) = Inr () \<and>
   files (snd (create_sql ''data/t.txt'' spaced_world)) ''data/t.sql'' =
     Some ''CREATE TABLE gip_t (a x,  offset y, offset  z, c u);''"
  by code_simp

section \<open>The derived datasets\<close>

lemma build_dataset_skip:
  "handle_conflicting_output_tables en [n] w = (Inr False, w') \<Longrightarrow>
   build_dataset en gs n w = (Inr (), w')"
  by (simp add: build_dataset_def bnd_def handle_conflicting_def ret_def)

lemma build_dataset_present:
  "reports_existing en \<Longrightarrow> n \<in> set (tables w) \<Longrightarrow> build_dataset en gs n w = (Inr (), w)"
  by (rule build_dataset_skip) (simp add: reports_existing_def)

lemma build_dataset_absent:
  assumes "reports_existing en" and "n \<notin> set (tables w)"
  shows "build_dataset en gs n w =
     (Inr (), w\<lparr>tables := tables w @ [n], indexes := indexes w @ [n @ ''_geom_idx''],
               trace := trace w @ [Execute n, Commit]\<rparr>)"
proof -
  from assms have "handle_conflicting_output_tables en [n] w = (Inr True, w)"
    by (simp add: reports_existing_def)
  with assms(2) show ?thesis
    by (simp add: build_dataset_def bnd_def handle_conflicting_def execute_create_def
        commit_def emit_def)
qed

lemma build_dataset_tables:
  assumes "reports_existing en"
  shows "\<exists>w'. build_dataset en gs n w = (Inr (), w') \<and> tables w' = add_table (tables w) n"
proof (cases "n \<in> set (tables w)")
  case True
  with build_dataset_present[OF assms True] show ?thesis
    by (simp add: add_table_def)
next
  case False
  with build_dataset_absent[OF assms False] show ?thesis
    by (simp add: add_table_def)
qed

lemma build_datasets_tables:
  assumes "reports_existing en"
  shows "\<exists>w'. build_datasets en gs w = (Inr (), w') \<and>
     tables w' = foldl add_table (tables w) dataset_names"
proof -
  from build_dataset_tables[OF assms] obtain w1 where
    1: "build_dataset en gs ''building'' w = (Inr (), w1)" "tables w1 = add_table (tables w) ''building''"
    by blast
  from build_dataset_tables[OF assms] obtain w2 where
    2: "build_dataset en gs ''crossing'' w1 = (Inr (), w2)" "tables w2 = add_table (tables w1) ''crossing''"
    by blast
  from build_dataset_tables[OF assms] obtain w3 where
    3: "build_dataset en gs ''facility'' w2 = (Inr (), w3)" "tables w3 = add_table (tables w2) ''facility''"
    by blast
  from build_dataset_tables[OF assms] obtain w4 where
    4: "build_dataset en gs ''greenness'' w3 = (Inr (), w4)" "tables w4 = add_table (tables w3) ''greenness''"
    by blast
  from build_dataset_tables[OF assms] obtain w5 where
    5: "build_dataset en gs ''water'' w4 = (Inr (), w5)" "tables w5 = add_table (tables w4) ''water''"
    by blast
  have "build_datasets en gs w = (Inr (), w5)"
    by (simp add: build_datasets_def bnd_def 1(1) 2(1) 3(1) 4(1) 5(1))
  moreover have "tables w5 = foldl add_table (tables w) dataset_names"
    by (simp add: dataset_names_def 1(2) 2(2) 3(2) 4(2) 5(2))
  ultimately show ?thesis by blast
qed

lemma build_datasets_present:
  assumes "reports_existing en" and "list_all (\<lambda>n. n \<in> set (tables w)) dataset_names"
  shows "build_datasets en gs w = (Inr (), w)"
proof -
  from assms(2) have p: "''building'' \<in> set (tables w)" "''crossing'' \<in> set (tables w)"
    "''facility'' \<in> set (tables w)" "''greenness'' \<in> set (tables w)" "''water'' \<in> set (tables w)"
    by (simp_all add: dataset_names_def)
  show ?thesis
    by (simp add: build_datasets_def bnd_def build_dataset_present[OF assms(1)] p)
qed

lemma set_add_table: "set (add_table ts n) = insert n (set ts)"
  by (auto simp: add_table_def)

lemma distinct_add_table: "distinct ts \<Longrightarrow> distinct (add_table ts n)"
  by (simp add: add_table_def)

lemma set_foldl_add_table: "set (foldl add_table ts ns) = set ts \<union> set ns"
  by (induction ns arbitrary: ts) (auto simp: set_add_table)

lemma distinct_foldl_add_table: "distinct ts \<Longrightarrow> distinct (foldl add_table ts ns)"
  by (induction ns arbitrary: ts) (auto simp: distinct_add_table)

lemma count_list_distinct: "distinct xs \<Longrightarrow> x \<in> set xs \<Longrightarrow> count_list xs x = 1"
  by (induction xs) (auto simp: count_list_0_iff)

text \<open>
  Claim C7. When the collaborator answers \<open>False\<close> for a dataset, its block does
  nothing more: no statement is executed and nothing is committed, and the world is the
  one the collaborator left. Hence, with a collaborator that reports existing tables
  correctly and no drop in between, building the datasets twice succeeds both times,
  the second time changes nothing, and each of the five names is the name of exactly
  one table.
\<close>

theorem datasets_built_once:
  "(\<forall>n w w'. handle_conflicting_output_tables en [n] w = (Inr False, w') \<longrightarrow>
       build_dataset en gs n w = (Inr (), w')) \<and>
   (reports_existing en \<and> distinct (tables w) \<longrightarrow>
      (\<exists>w1. build_datasets en gs w = (Inr (), w1) \<and>
            build_datasets en gs w1 = (Inr (), w1) \<and>
            list_all (\<lambda>n. count_list (tables w1) n = 1) dataset_names))"
proof (intro conjI impI allI)
  fix n w w'
  assume "handle_conflicting_output_tables en [n] w = (Inr False, w')"
  then show "build_dataset en gs n w = (Inr (), w')"
    by (rule build_dataset_skip)
next
  assume a: "reports_existing en \<and> distinct (tables w)"
  then obtain w1 where 1: "build_datasets en gs w = (Inr (), w1)"
    and t: "tables w1 = foldl add_table (tables w) dataset_names"
    using build_datasets_tables by blast
  have d: "distinct (tables w1)"
    unfolding t using a by (simp add: distinct_foldl_add_table)
  have m: "list_all (\<lambda>n. n \<in> set (tables w1)) dataset_names"
    unfolding t by (simp add: list_all_iff set_foldl_add_table)
  have 2: "build_datasets en gs w1 = (Inr (), w1)"
    using a m by (simp add: build_datasets_present)
  have "list_all (\<lambda>n. count_list (tables w1) n = 1) dataset_names"
    using m d by (simp add: list_all_iff count_list_distinct)
  with 1 2 show "\<exists>w1. build_datasets en gs w = (Inr (), w1) \<and>
            build_datasets en gs w1 = (Inr (), w1) \<and>
            list_all (\<lambda>n. count_list (tables w1) n = 1) dataset_names"
    by blast
qed

lemma honest_reports: "reports_existing honest_env"
  by (simp add: reports_existing_def honest_env_def)

text \<open>The theorem from the empty database, with the collaborator of \<open>honest_env\<close>.\<close>

theorem datasets_built_once_witness:
  "reports_existing honest_env \<and>
   tables (snd (build_datasets honest_env four_endpoints empty_world)) =
     [''building'', ''crossing'', ''facility'', ''greenness'', ''water''] \<and>
   build_datasets honest_env four_endpoints (snd (build_datasets honest_env four_endpoints empty_world)) =
     (Inr (), snd (build_datasets honest_env four_endpoints empty_world)) \<and>
   build_dataset honest_env four_endpoints ''water'' (snd (build_datasets honest_env four_endpoints empty_world)) =
     (Inr (), snd (build_datasets honest_env four_endpoints empty_world))"
proof -
  note t = datasets_built_once[of honest_env four_endpoints empty_world]
  have d: "distinct (tables empty_world)"
    by (simp add: empty_world_def)
  from t honest_reports d obtain w1 where
    1: "build_datasets honest_env four_endpoints empty_world = (Inr (), w1)"
    and 2: "build_datasets honest_env four_endpoints w1 = (Inr (), w1)"
    by blast
  have s: "snd (build_datasets honest_env four_endpoints empty_world) = w1"
    using 1 by simp
  have tb: "tables (snd (build_datasets honest_env four_endpoints empty_world)) =
     [''building'', ''crossing'', ''facility'', ''greenness'', ''water'']"
    by code_simp
  have "handle_conflicting_output_tables honest_env [''water''] w1 = (Inr False, w1)"
    using tb unfolding s by (simp add: honest_env_def)
  with t have 3: "build_dataset honest_env four_endpoints ''water'' w1 = (Inr (), w1)"
    by blast
  from honest_reports tb 2 3 show ?thesis
    unfolding s by blast
qed


section \<open>A file given in the settings\<close>

lemma bnd_drop_table:
  "bnd (drop_table n) f w =
     f () (w\<lparr>tables := removeAll n (tables w), trace := trace w @ [DropTable n]\<rparr>)"
  by (simp add: bnd_def drop_table_def)

lemma bnd_commit: "bnd commit f w = f () (w\<lparr>trace := trace w @ [Commit]\<rparr>)"
  by (simp add: bnd_def commit_def emit_def)





















end
